theory Spec2Isabelle
  imports Main
begin

section \<open>Python values and exceptions\<close>

text \<open>
  The values that \<open>json.loads\<close> produces, and against which a \<open>ShellResult\<close> is
  compared: \<open>None\<close>, booleans, integers, strings, lists and dictionaries with string
  keys (an association list whose keys are distinct, as a Python dict's are).
  JSON numbers with a fraction are left out of the model.
\<close>

datatype pyval =
    PNone
  | PBool bool
  | PInt int
  | PStr string
  | PList "pyval list"
  | PDict "(string \<times> pyval) list"

text \<open>Python's truth value of an object, as \<open>if x:\<close> tests it.\<close>

fun truthy :: "pyval \<Rightarrow> bool" where
  "truthy PNone = False"
| "truthy (PBool b) = b"
| "truthy (PInt i) = (i \<noteq> 0)"
| "truthy (PStr s) = (s \<noteq> [])"
| "truthy (PList xs) = (xs \<noteq> [])"
| "truthy (PDict kvs) = (kvs \<noteq> [])"

text \<open>
  Python's \<open>==\<close> on these values: \<open>bool\<close> is a subclass of \<open>int\<close> (\<open>True == 1\<close>),
  lists compare element by element, dictionaries compare as mappings (same length,
  and every key of the left one is bound to an equal value on the right), and values
  of unrelated types are unequal.
\<close>

fun py_eq :: "pyval \<Rightarrow> pyval \<Rightarrow> bool" where
  "py_eq PNone PNone = True"
| "py_eq (PBool a) (PBool b) = (a = b)"
| "py_eq (PBool a) (PInt j) = ((if a then 1 else 0) = j)"
| "py_eq (PInt i) (PBool b) = (i = (if b then 1 else 0))"
| "py_eq (PInt i) (PInt j) = (i = j)"
| "py_eq (PStr s) (PStr t) = (s = t)"
| "py_eq (PList xs) (PList ys) = list_all2 py_eq xs ys"
| "py_eq (PDict a) (PDict b) =
     (length a = length b \<and>
      list_all (\<lambda>(k, v). case map_of b k of None \<Rightarrow> False | Some v' \<Rightarrow> py_eq v v') a)"
| "py_eq _ _ = False"

text \<open>
  The exceptions that the modelled code raises, catches or lets through.
  \<open>XFailed\<close> is what \<open>pytest.xfail\<close> raises; its argument records which of the
  fixture's three messages it carries.
\<close>

datatype exn =
    OSError int
  | NoSuchProcess
  | AccessDenied
  | TimeoutExpired
  | RuntimeError
  | TypeError
  | AttributeError
  | KeyError string
  | SystemExit
  | KeyboardInterrupt
  | Skipped
  | XFailed xfail_msg
and xfail_msg =
    FailedToConfirm nat
  | FailedToStart nat
  | StrOfExc exn

section \<open>The result envelope\<close>

text \<open>
  \<open>ShellResult\<close> is a named tuple of exit code, standard output, standard error and
  the parsed JSON payload (\<open>None\<close> when there is none).
\<close>

record ShellResult =
  exitcode :: int
  stdout :: string
  stderr :: string
  json :: pyval

text \<open>
  \<^verbatim>\<open>
  def __eq__(self, other):
      if self.json:
          return self.json == other
      return self.stdout == other
  \<close>
\<close>

definition ShellResult_eq :: "ShellResult \<Rightarrow> pyval \<Rightarrow> bool" where
  "ShellResult_eq self other =
     (if truthy (json self) then py_eq (json self) other
      else py_eq (PStr (stdout self)) other)"

section \<open>Command lines\<close>

text \<open>
  \<open>os.path.join\<close> of two components, as \<open>posixpath\<close> computes it: an absolute
  second component replaces the first, otherwise the two are joined with exactly one
  separator between them.
\<close>

definition os_path_join :: "string \<Rightarrow> string \<Rightarrow> string" where
  "os_path_join a b =
     (if b \<noteq> [] \<and> hd b = CHR ''/'' then b
      else if a = [] \<or> last a = CHR ''/'' then a @ b
      else a @ ''/'' @ b)"

text \<open>
  The script classes. \<open>SaltDaemonScriptBase\<close> is the base of the three daemons and
  \<open>SaltCliScriptBase\<close> the base of the five one-shot commands; a class overrides
  \<open>get_script_path\<close>, \<open>get_base_script_args\<close> and \<open>get_script_args\<close> or inherits
  them from \<open>SaltScriptBase\<close>.
\<close>

datatype daemon_class = SaltDaemonScriptBase | SaltMinion | SaltMaster | SSHD

datatype cli_class = SaltCliScriptBase | Salt | SaltCall | SaltKey | SaltRun | SaltSSH

text \<open>The constructor arguments of \<open>SaltScriptBase\<close> that the command line is built from.\<close>

record script =
  config_dir :: string
  bin_dir_path :: string
  cli_script_name :: string

text \<open>\<open>SaltScriptBase.get_script_path\<close>: \<open>os.path.join(self.bin_dir_path, script_name)\<close>.\<close>

definition get_script_path :: "script \<Rightarrow> string \<Rightarrow> string" where
  "get_script_path self script_name = os_path_join (bin_dir_path self) script_name"

text \<open>
  \<open>SSHD.get_script_path\<close> looks the binary up with \<open>salt.utils.which\<close> (a parameter
  here) and skips the test when there is none; the other daemons inherit the base method.
\<close>

definition daemon_get_script_path ::
  "(string \<Rightarrow> string option) \<Rightarrow> daemon_class \<Rightarrow> script \<Rightarrow> string \<Rightarrow> exn + string" where
  "daemon_get_script_path which c self script_name =
     (case c of
        SSHD \<Rightarrow> (case which (cli_script_name self) of
                   None \<Rightarrow> Inl Skipped
                 | Some sshd \<Rightarrow> if sshd = [] then Inl Skipped else Inr sshd)
      | _ \<Rightarrow> Inr (get_script_path self script_name))"

text \<open>\<open>SaltScriptBase.get_base_script_args\<close>: \<open>['-c', self.config_dir]\<close>.\<close>

definition get_base_script_args :: "script \<Rightarrow> string list" where
  "get_base_script_args self = [''-c'', config_dir self]"

text \<open>
  \<open>SSHD.get_base_script_args\<close> is
  \<open>['-D', '-f', os.path.join(self.config_dir, 'sshd_config')]\<close>; the Salt daemons inherit
  the base method.
\<close>

definition daemon_get_base_script_args :: "daemon_class \<Rightarrow> script \<Rightarrow> string list" where
  "daemon_get_base_script_args c self =
     (case c of
        SSHD \<Rightarrow> [''-D'', ''-f'', os_path_join (config_dir self) ''sshd_config'']
      | _ \<Rightarrow> get_base_script_args self)"

text \<open>
  \<open>SaltCliScriptBase.get_base_script_args\<close>:
  \<open>SaltScriptBase.get_base_script_args(self) + ['--out=json']\<close>, inherited by every
  one-shot command.
\<close>

definition cli_get_base_script_args :: "cli_class \<Rightarrow> script \<Rightarrow> string list" where
  "cli_get_base_script_args c self = get_base_script_args self @ [''--out=json'']"

definition daemon_get_script_args :: "daemon_class \<Rightarrow> script \<Rightarrow> string list" where
  "daemon_get_script_args c self =
     (case c of
        SaltMinion \<Rightarrow> [''--disable-keepalive'', ''-l'', ''quiet'']
      | SaltMaster \<Rightarrow> [''-l'', ''quiet'']
      | _ \<Rightarrow> [])"

definition cli_get_script_args :: "cli_class \<Rightarrow> script \<Rightarrow> string list" where
  "cli_get_script_args c self =
     (case c of
        SaltCall \<Rightarrow> [''--retcode-passthrough'']
      | SaltSSH \<Rightarrow> [''-l'', ''trace'', ''-w'', ''--rand-thin-dir'',
                    ''--roster-file='' @ os_path_join (config_dir self) ''roster'',
                    ''--ignore-host-keys'', ''localhost'']
      | _ \<Rightarrow> [])"

text \<open>
  The argument vector that \<open>SaltDaemonScriptBase._start\<close> hands to \<open>NonBlockingPopen\<close>:
  \<^verbatim>\<open>
  proc_args = [
      self.get_script_path(self.cli_script_name)
  ] + self.get_base_script_args() + self.get_script_args()
  \<close>
\<close>

definition daemon_proc_args ::
  "(string \<Rightarrow> string option) \<Rightarrow> daemon_class \<Rightarrow> script \<Rightarrow> exn + string list" where
  "daemon_proc_args which c self =
     (case daemon_get_script_path which c self (cli_script_name self) of
        Inl e \<Rightarrow> Inl e
      | Inr path \<Rightarrow> Inr ([path] @ daemon_get_base_script_args c self @ daemon_get_script_args c self))"

text \<open>
  The argument vector of \<open>SaltCliScriptBase._run_script\<close>, which appends the caller's
  arguments:
  \<^verbatim>\<open>
  proc_args = [
      self.get_script_path(self.cli_script_name)
  ] + self.get_base_script_args() + self.get_script_args() + list(args)
  \<close>
\<close>

definition cli_proc_args :: "cli_class \<Rightarrow> script \<Rightarrow> string list \<Rightarrow> string list" where
  "cli_proc_args c self args =
     [get_script_path self (cli_script_name self)] @ cli_get_base_script_args c self
       @ cli_get_script_args c self @ args"

text \<open>\<open>followed_by x y xs\<close>: somewhere in \<open>xs\<close>, \<open>x\<close> is immediately followed by \<open>y\<close>.\<close>

fun followed_by :: "'a \<Rightarrow> 'a \<Rightarrow> 'a list \<Rightarrow> bool" where
  "followed_by x y (a # b # rest) = ((a = x \<and> b = y) \<or> followed_by x y (b # rest))"
| "followed_by x y _ = False"

section \<open>Closing a terminal\<close>

text \<open>
  A terminal is the \<open>NonBlockingPopen\<close> object of one subprocess. What the operating
  system answers is a parameter: the result of the \<open>n\<close>-th call of \<open>poll()\<close>
  (\<open>None\<close> while the process runs, its exit code afterwards) and the exception, if
  any, that each of the three signalling calls raises.
\<close>

record terminal =
  t_poll :: "nat \<Rightarrow> int option"
  t_send_signal :: "exn option"
  t_kill :: "exn option"
  t_terminate :: "exn option"

definition ESRCH :: int where "ESRCH = 3"

definition EACCES :: int where "EACCES = 13"

datatype terminal_call = SendSignalKILL | Kill | Terminate | Communicate

text \<open>
  What escapes the guard that \<open>close_terminal\<close> puts around each signalling call:
  \<^verbatim>\<open>
  except OSError as exc:
      if exc.errno not in (errno.ESRCH, errno.EACCES):
          raise
  \<close>
\<close>

fun guarded :: "exn option \<Rightarrow> exn option" where
  "guarded None = None"
| "guarded (Some (OSError e)) = (if e \<notin> {ESRCH, EACCES} then Some (OSError e) else None)"
| "guarded (Some x) = Some x"

text \<open>
  The polling loop on \<open>terminal.poll\<close>, \<open>k\<close> rounds left and \<open>n\<close> calls made so far; it
  returns the number of calls made when it ends.
  \<^verbatim>\<open>
  timeout = 5
  while timeout > 0:
      if terminal.poll() is not None:
          break
      timeout -= 0.0125
      time.sleep(0.0125)
  \<close>
  In double precision the 400th subtraction of 0.0125 from 5 gives a negative number, so
  the loop makes at most 400 rounds.
\<close>

fun wait_for_exit :: "(nat \<Rightarrow> int option) \<Rightarrow> nat \<Rightarrow> nat \<Rightarrow> nat" where
  "wait_for_exit poll 0 n = n"
| "wait_for_exit poll (Suc k) n =
     (if poll n \<noteq> None then Suc n else wait_for_exit poll k (Suc n))"

text \<open>
  \<open>close_terminal\<close> returns the exception that escapes it, if any, and the calls it
  made on the terminal, in order (a call that raised is listed too).
  \<^verbatim>\<open>
  if terminal.poll() is None:
      try:
          terminal.send_signal(signal.SIGKILL)
      except OSError as exc: ...
      timeout = 5
      while timeout > 0: ...
  if terminal.poll() is None:
      try:
          terminal.kill()
      except OSError as exc: ...
  try:
      terminal.terminate()
  except OSError as exc: ...
  terminal.communicate()
  \<close>
\<close>

definition close_terminal :: "terminal \<Rightarrow> exn option \<times> terminal_call list" where
  "close_terminal t =
     (let (r1, n1, calls1) =
            (if t_poll t 0 = None then
               (case guarded (t_send_signal t) of
                  Some e \<Rightarrow> (Some e, 1, [SendSignalKILL])
                | None \<Rightarrow> (None, wait_for_exit (t_poll t) 400 1, [SendSignalKILL]))
             else (None, 1, []))
      in case r1 of
           Some e \<Rightarrow> (Some e, calls1)
         | None \<Rightarrow>
             (let (r2, calls2) =
                    (if t_poll t n1 = None then (guarded (t_kill t), calls1 @ [Kill])
                     else (None, calls1))
              in case r2 of
                   Some e \<Rightarrow> (Some e, calls2)
                 | None \<Rightarrow>
                     (case guarded (t_terminate t) of
                        Some e \<Rightarrow> (Some e, calls2 @ [Terminate])
                      | None \<Rightarrow> (None, calls2 @ [Terminate, Communicate]))))"

section \<open>Readiness checks, effects and the world\<close>

text \<open>
  An entry of the list that \<open>get_check_ports\<close> returns: an integer is a TCP port to
  connect to, a string is a minion id to look for among the joined minions.
\<close>

datatype check = Port int | PeerName string

datatype log_msg =
    CheckingPorts "check list"
  | CheckingPort int
  | PortConnectable int
  | Running string
  | FailedToLoadJSON string
  | NoValidJSON
  | AllPortsChecked
  | LeftBehind "string list"
  | ProcessTerminated "string list"
  | LoggedException exn

text \<open>What the modelled code does to the world outside, in the order it does it.\<close>

datatype effect =
    Connect int
  | ManageJoined
  | SleepHalf
  | Sleep
  | Log log_msg
  | ProcessStart int
  | ProcessTerminate int
  | ChildSignal int
  | ChildWait int
  | ChildKill int
  | WaitProcs "int list"

text \<open>
  A descendant process as \<open>psutil\<close> lists it, with what each call on it answers: its
  command line or an exception, and the exception, if any, that \<open>send_signal\<close>,
  \<open>wait(timeout=5)\<close> and \<open>kill\<close> raise.
\<close>

record child =
  c_pid :: int
  c_cmdline :: "exn + string list"
  c_send_signal :: "exn option"
  c_wait :: "exn option"
  c_kill :: "exn option"

text \<open>
  The body of the \<open>try\<close> around one child, before its \<open>except psutil.NoSuchProcess\<close>:
  \<^verbatim>\<open>
  cmdline = child.cmdline()
  log.info('Salt left behind a child process. Process cmdline: %s', cmdline)
  child.send_signal(signal.SIGKILL)
  try:
      child.wait(timeout=5)
  except psutil.TimeoutExpired:
      child.kill()
  log.info('Process terminated. Process cmdline: %s', cmdline)
  \<close>
\<close>

definition signal_child :: "child \<Rightarrow> exn option \<times> effect list" where
  "signal_child c =
     (case c_cmdline c of
        Inl e \<Rightarrow> (Some e, [])
      | Inr cmdline \<Rightarrow>
          (case c_send_signal c of
             Some e \<Rightarrow> (Some e, [Log (LeftBehind cmdline), ChildSignal (c_pid c)])
           | None \<Rightarrow>
               (case c_wait c of
                  None \<Rightarrow>
                    (None, [Log (LeftBehind cmdline), ChildSignal (c_pid c), ChildWait (c_pid c),
                            Log (ProcessTerminated cmdline)])
                | Some TimeoutExpired \<Rightarrow>
                    (case c_kill c of
                       Some e \<Rightarrow>
                         (Some e, [Log (LeftBehind cmdline), ChildSignal (c_pid c),
                                   ChildWait (c_pid c), ChildKill (c_pid c)])
                     | None \<Rightarrow>
                         (None, [Log (LeftBehind cmdline), ChildSignal (c_pid c),
                                 ChildWait (c_pid c), ChildKill (c_pid c),
                                 Log (ProcessTerminated cmdline)]))
                | Some e \<Rightarrow>
                    (Some e, [Log (LeftBehind cmdline), ChildSignal (c_pid c),
                              ChildWait (c_pid c)]))))"

text \<open>
  The loop over a copy of the list, removing from the list itself the children that
  are gone; the first argument is what is left of the copy.
  \<^verbatim>\<open>
  for child in children[:]:
      try:
          ...
      except psutil.NoSuchProcess:
          children.remove(child)
  \<close>
  It returns the exception that escapes, if any, the list \<open>children\<close> and the effects.
\<close>

fun reap_children :: "child list \<Rightarrow> child list \<Rightarrow> exn option \<times> child list \<times> effect list" where
  "reap_children [] children = (None, children, [])"
| "reap_children (c # rest) children =
     (case signal_child c of
        (None, effs) \<Rightarrow>
          (case reap_children rest children of
             (r, children', effs') \<Rightarrow> (r, children', effs @ effs'))
      | (Some NoSuchProcess, effs) \<Rightarrow>
          (case reap_children rest (remove1 c children) of
             (r, children', effs') \<Rightarrow> (r, children', effs @ effs'))
      | (Some e, effs) \<Rightarrow> (Some e, children, effs))"

text \<open>
  The loop followed by the bulk wait:
  \<^verbatim>\<open>
  if children:
      psutil.wait_procs(children, timeout=5)
  \<close>
\<close>

definition reap_and_wait :: "child list \<Rightarrow> exn option \<times> child list \<times> effect list" where
  "reap_and_wait children =
     (case reap_children children children of
        (Some e, children', effs) \<Rightarrow> (Some e, children', effs)
      | (None, children', effs) \<Rightarrow>
          (None, children',
           effs @ (if children' \<noteq> [] then [WaitProcs (map c_pid children')] else [])))"

text \<open>
  The enumeration that both \<open>terminate_child_processes\<close> and
  \<open>SaltDaemonScriptBase.terminate\<close> start with; \<open>listing\<close> is what
  \<open>psutil.Process(pid).children(recursive=True)\<close> answers.
  \<^verbatim>\<open>
  try:
      parent = psutil.Process(pid)
      children = parent.children(recursive=True)
  except psutil.NoSuchProcess:
      children = []
  \<close>
\<close>

definition enumerate_children :: "exn + child list \<Rightarrow> exn + child list" where
  "enumerate_children listing =
     (case listing of
        Inl NoSuchProcess \<Rightarrow> Inr []
      | Inl e \<Rightarrow> Inl e
      | Inr children \<Rightarrow> Inr children)"

definition terminate_child_processes ::
  "(int \<Rightarrow> exn + child list) \<Rightarrow> int \<Rightarrow> exn option \<times> child list \<times> effect list" where
  "terminate_child_processes psutil_children pid =
     (case enumerate_children (psutil_children pid) of
        Inl e \<Rightarrow> (Some e, [], [])
      | Inr children \<Rightarrow> reap_and_wait children)"

section \<open>Daemon handles\<close>

datatype cfgval = CInt int | CStr string

text \<open>
  A daemon handle: its class, its configuration dictionary, whether it was given a
  \<open>salt_run\<close>, the two \<open>multiprocessing.Event\<close> flags \<open>_running\<close> and
  \<open>_connectable\<close>, and the process id of \<open>_process\<close> (\<open>None\<close> before \<open>start\<close>).
\<close>

record daemon =
  d_class :: daemon_class
  d_config :: "(string \<times> cfgval) list"
  d_salt_run :: bool
  running :: bool
  connectable :: bool
  process :: "int option"

text \<open>\<open>SaltDaemonScriptBase.__init__\<close>: both events are created clear, no process yet.\<close>

definition new_daemon :: "daemon_class \<Rightarrow> (string \<times> cfgval) list \<Rightarrow> bool \<Rightarrow> daemon" where
  "new_daemon c config salt_run =
     \<lparr>d_class = c, d_config = config, d_salt_run = salt_run,
      running = False, connectable = False, process = None\<rparr>"

text \<open>
  \<open>_wait_until_running\<close> is a coroutine: it runs from one \<open>yield\<close> to the next each
  time the IOLoop resumes it. A suspended coroutine is the \<open>yield\<close> it waits at together
  with its local variables: \<open>check_ports\<close>, and inside the \<open>for\<close> loop the current
  entry and the entries still to visit.
\<close>

datatype coro =
    AtStart
  | LoopTop "check list"
  | ForTop "check list" check "check list"
  | Querying "check list" string "check list"
  | Sleeping "check list"
  | Final

datatype step = Suspend coro | Return bool | Raise exn

text \<open>
  The world: a logical clock, the effects so far, the process ids of the daemon
  subprocesses that are running, the handle objects by their identity, and the
  IOLoop. Handles are objects that the fixtures, the callers and the coroutines share,
  so they live in a store and are passed by identity. The IOLoop is shared too
  (\<open>SaltScriptBase.io_loop\<close> is \<open>ioloop.IOLoop.current()\<close>): it keeps the coroutines
  that a \<open>run_sync\<close> left suspended when its timeout fired, each with the identity of
  its handle.
\<close>

record world =
  clock :: nat
  trace :: "effect list"
  live :: "int list"
  handles :: "nat \<Rightarrow> daemon"
  next_handle :: nat
  parked :: "(nat \<times> coro) list"

text \<open>
  \<open>clock\<close> counts the resumptions of coroutines and the blocking sleeps.

  What the outside answers is a parameter, indexed by the clock where it can change
  with time:
  \<^item> \<open>e_pid\<close>: the process id that \<open>self._process.start()\<close> gets;
  \<^item> \<open>e_connect_ex\<close>: the result of \<open>sock.connect_ex(('localhost', port))\<close>, \<open>0\<close> for a
    connection, or the exception it raises;
  \<^item> \<open>e_manage_joined\<close>: the exit code, standard output and standard error of the
    command that \<open>self.salt_run.run('manage.joined')\<close> runs, or the exception that the
    call raises;
  \<^item> \<open>e_json_loads\<close>: \<open>json.loads\<close>, \<open>None\<close> where it raises \<open>ValueError\<close>;
  \<^item> \<open>e_set_order\<close>: the order in which Python iterates a set of these entries;
  \<^item> \<open>e_budget\<close>: how many resumptions the IOLoop makes before a \<open>run_sync\<close> started
    now with this timeout stops;
  \<^item> \<open>e_next\<close>: which coroutine the IOLoop resumes at this tick of the clock, an index
    into the suspended ones it keeps, or any larger number for the coroutine that
    \<open>run_sync\<close> was called with;
  \<^item> \<open>e_children\<close>: what \<open>psutil.Process(pid).children(recursive=True)\<close> answers.
\<close>

record env =
  e_pid :: int
  e_connect_ex :: "nat \<Rightarrow> int \<Rightarrow> exn + int"
  e_manage_joined :: "nat \<Rightarrow> exn + int \<times> string \<times> string"
  e_json_loads :: "string \<Rightarrow> pyval option"
  e_set_order :: "check list \<Rightarrow> check list"
  e_budget :: "nat \<Rightarrow> int \<Rightarrow> nat"
  e_next :: "nat \<Rightarrow> nat"
  e_children :: "nat \<Rightarrow> int \<Rightarrow> exn + child list"

text \<open>
  A Python set is a list without duplicates here, and iterating it visits its elements
  in the order the outside gives (any order of exactly these elements).
\<close>

definition set_order :: "env \<Rightarrow> check list \<Rightarrow> check list" where
  "set_order env xs =
     (if distinct (e_set_order env xs) \<and> set (e_set_order env xs) = set xs
      then e_set_order env xs else remdups xs)"

text \<open>
  The constructor call of a fixture: a new handle object, with a new identity.
\<close>

definition construct ::
  "daemon_class \<Rightarrow> (string \<times> cfgval) list \<Rightarrow> bool \<Rightarrow> world \<Rightarrow> nat \<times> world" where
  "construct c config salt_run w =
     (next_handle w,
      w\<lparr>handles := (handles w)(next_handle w := new_daemon c config salt_run),
        next_handle := Suc (next_handle w)\<rparr>)"

text \<open>\<open>is_alive\<close>: \<open>return self._running.is_set()\<close>.\<close>

definition is_alive :: "world \<Rightarrow> nat \<Rightarrow> bool" where
  "is_alive w self = running (handles w self)"

text \<open>\<open>self.config[key]\<close>, read as a readiness check.\<close>

definition config_check :: "daemon \<Rightarrow> string \<Rightarrow> exn + check" where
  "config_check self key =
     (case map_of (d_config self) key of
        None \<Rightarrow> Inl (KeyError key)
      | Some (CInt i) \<Rightarrow> Inr (Port i)
      | Some (CStr s) \<Rightarrow> Inr (PeerName s))"

text \<open>
  \<open>get_check_ports\<close>: the base class returns \<open>[]\<close>, the minion
  \<open>set([self.config['id'], self.config['pytest_port']])\<close>, the master the set of its
  \<open>ret_port\<close>, \<open>publish_port\<close> and \<open>pytest_port\<close>, and sshd the list
  \<open>[self.config['port']]\<close>.
\<close>

definition get_check_ports :: "env \<Rightarrow> daemon \<Rightarrow> exn + check list" where
  "get_check_ports env self =
     (case d_class self of
        SaltDaemonScriptBase \<Rightarrow> Inr []
      | SaltMinion \<Rightarrow>
          (case config_check self ''id'' of Inl e \<Rightarrow> Inl e | Inr a \<Rightarrow>
           case config_check self ''pytest_port'' of Inl e \<Rightarrow> Inl e | Inr b \<Rightarrow>
           Inr (set_order env [a, b]))
      | SaltMaster \<Rightarrow>
          (case config_check self ''ret_port'' of Inl e \<Rightarrow> Inl e | Inr a \<Rightarrow>
           case config_check self ''publish_port'' of Inl e \<Rightarrow> Inl e | Inr b \<Rightarrow>
           case config_check self ''pytest_port'' of Inl e \<Rightarrow> Inl e | Inr c \<Rightarrow>
           Inr (set_order env [a, b, c]))
      | SSHD \<Rightarrow>
          (case config_check self ''port'' of Inl e \<Rightarrow> Inl e | Inr a \<Rightarrow> Inr [a]))"

text \<open>
  \<open>start\<close>; creating the child process is taken to succeed.
  \<^verbatim>\<open>
  self._process = SignalHandlingMultiprocessingProcess(
      target=self._start, args=(self._running,))
  self._running.set()
  self._process.start()
  atexit.register(terminate_child_processes, self._process.pid)
  return True
  \<close>
\<close>

definition start :: "env \<Rightarrow> nat \<Rightarrow> world \<Rightarrow> world" where
  "start env self w =
     w\<lparr>handles := (handles w)(self := (handles w self)\<lparr>process := Some (e_pid env), running := True\<rparr>),
       trace := trace w @ [ProcessStart (e_pid env)],
       live := e_pid env # live w\<rparr>"

text \<open>
  \<open>terminate\<close> returns the exception that escapes it, if any. Before \<open>start\<close> there is
  no process and \<open>self._process.pid\<close> raises \<open>AttributeError\<close>.
  \<^verbatim>\<open>
  try:
      parent = psutil.Process(self._process.pid)
      children = parent.children(recursive=True)
  except psutil.NoSuchProcess:
      children = []

  self._running.clear()
  self._connectable.clear()
  time.sleep(0.0125)
  self._process.terminate()
  for child in children[:]: ...
  if children:
      psutil.wait_procs(children, timeout=5)
  \<close>
\<close>

definition terminate :: "env \<Rightarrow> nat \<Rightarrow> world \<Rightarrow> exn option \<times> world" where
  "terminate env self w =
     (case process (handles w self) of
        None \<Rightarrow> (Some AttributeError, w)
      | Some pid \<Rightarrow>
          (case enumerate_children (e_children env (clock w) pid) of
             Inl e \<Rightarrow> (Some e, w)
           | Inr children \<Rightarrow>
               (case reap_and_wait children of
                  (r, children', effs) \<Rightarrow>
                    (r, w\<lparr>handles := (handles w)
                               (self := (handles w self)\<lparr>running := False, connectable := False\<rparr>),
                           clock := Suc (clock w),
                           trace := trace w @ [Sleep, ProcessTerminate pid] @ effs,
                           live := removeAll pid (live w)\<rparr>))))"

section \<open>The readiness prober\<close>

text \<open>Python's \<open>name in value\<close> for a string \<open>name\<close>.\<close>

fun is_substring :: "string \<Rightarrow> string \<Rightarrow> bool" where
  "is_substring xs [] = (xs = [])"
| "is_substring xs (y # ys) = (take (length xs) (y # ys) = xs \<or> is_substring xs ys)"

fun py_in :: "string \<Rightarrow> pyval \<Rightarrow> exn + bool" where
  "py_in name (PList xs) = Inr (list_ex (\<lambda>x. py_eq x (PStr name)) xs)"
| "py_in name (PDict kvs) = Inr (name \<in> set (map fst kvs))"
| "py_in name (PStr s) = Inr (is_substring name s)"
| "py_in name _ = Inl TypeError"

text \<open>
  \<open>SaltCliScriptBase.process_output\<close>, with the line it logs when the output is not
  JSON:
  \<^verbatim>\<open>
  if stdout:
      try:
          json_out = json.loads(stdout)
      except ValueError:
          log.debug('[%s][%s] Failed to load JSON from the following output:\n%r', ...)
          json_out = None
  else:
      json_out = None
  return stdout, stderr, json_out
  \<close>
\<close>

definition process_output ::
  "(string \<Rightarrow> pyval option) \<Rightarrow> string \<Rightarrow> string \<Rightarrow> (string \<times> string \<times> pyval) \<times> effect list" where
  "process_output json_loads out err =
     (if out \<noteq> [] then
        (case json_loads out of
           None \<Rightarrow> ((out, err, PNone), [Log (FailedToLoadJSON out)])
         | Some json_out \<Rightarrow> ((out, err, json_out), []))
      else ((out, err, PNone), []))"

text \<open>
  The end of one round of the \<open>for\<close> loop: on to the next entry, or out of the loop to
  \<open>yield gen.sleep(0.5)\<close>.
\<close>

definition for_next :: "check list \<Rightarrow> check list \<Rightarrow> world \<Rightarrow> step \<times> world" where
  "for_next check_ports rest w =
     (case rest of
        [] \<Rightarrow> (Suspend (Sleeping check_ports), w\<lparr>trace := trace w @ [SleepHalf]\<rparr>)
      | p # ps \<Rightarrow> (Suspend (ForTop check_ports p ps), w))"

text \<open>The test of \<open>while self._running.is_set():\<close> and the \<open>yield\<close> that follows it.\<close>

definition while_test :: "daemon \<Rightarrow> check list \<Rightarrow> step" where
  "while_test self check_ports =
     (if running self then Suspend (LoopTop check_ports) else Suspend Final)"

text \<open>
  One resumption of the \<open>_wait_until_running\<close> of the handle \<open>self\<close>: the code between
  the \<open>yield\<close> the coroutine was suspended at and the next one (or its return, or an
  exception). The flags are read from the handle and written to it there and then.
  \<^verbatim>\<open>
  yield gen.moment
  check_ports = self.get_check_ports()
  log.debug(...)
  while self._running.is_set():
      yield gen.moment
      if not check_ports:
          self._connectable.set()
          break
      for port in set(check_ports):
          yield gen.moment
          if isinstance(port, int):
              log.debug(...)
              sock = socket.socket(socket.AF_INET, socket.SOCK_STREAM)
              conn = sock.connect_ex(('localhost', port))
              if conn == 0:
                  log.debug(...)
                  check_ports.remove(port)
                  sock.shutdown(socket.SHUT_RDWR)
                  sock.close()
              del sock
          elif isinstance(port, six.string_types):
              if not self.salt_run:
                  raise RuntimeError(...)
              minions_joined = yield self.salt_run.run('manage.joined')
              if minions_joined.exitcode == 0:
                  if minions_joined.json and port in minions_joined.json:
                      check_ports.remove(port)
                  elif not minions_joined.json:
                      log.debug(...)
      yield gen.sleep(0.5)
  yield gen.moment
  log.debug(...)
  raise gen.Return(self._connectable.is_set())
  \<close>
  Calling \<open>self.salt_run.run('manage.joined')\<close> runs \<open>SaltCliScriptBase._run_script\<close>
  up to its first \<open>yield\<close>: it logs \<open>Running '...'\<close> at info level and spawns the
  command. When the command is done, \<open>_run_script\<close> passes its output through
  \<open>process_output\<close> and the prober is resumed with
  \<open>ShellResult(exitcode, stdout, stderr, json_out)\<close>.
\<close>

fun resume :: "env \<Rightarrow> nat \<Rightarrow> coro \<Rightarrow> world \<Rightarrow> step \<times> world" where
  "resume env self AtStart w =
     (case get_check_ports env (handles w self) of
        Inl e \<Rightarrow> (Raise e, w)
      | Inr check_ports \<Rightarrow>
          (while_test (handles w self) check_ports,
           w\<lparr>trace := trace w @ [Log (CheckingPorts check_ports)]\<rparr>))"
| "resume env self (LoopTop check_ports) w =
     (if check_ports = [] then
        (Suspend Final, w\<lparr>handles := (handles w)(self := (handles w self)\<lparr>connectable := True\<rparr>)\<rparr>)
      else for_next check_ports (set_order env check_ports) w)"
| "resume env self (ForTop check_ports (Port p) rest) w =
     (case e_connect_ex env (clock w) p of
        Inl e \<Rightarrow> (Raise e, w\<lparr>trace := trace w @ [Log (CheckingPort p), Connect p]\<rparr>)
      | Inr conn \<Rightarrow>
          (if conn = 0 then
             for_next (remove1 (Port p) check_ports) rest
               (w\<lparr>trace := trace w @ [Log (CheckingPort p), Connect p, Log (PortConnectable p)]\<rparr>)
           else
             for_next check_ports rest
               (w\<lparr>trace := trace w @ [Log (CheckingPort p), Connect p]\<rparr>)))"
| "resume env self (ForTop check_ports (PeerName name) rest) w =
     (if \<not> d_salt_run (handles w self) then (Raise RuntimeError, w)
      else (Suspend (Querying check_ports name rest),
            w\<lparr>trace := trace w @ [Log (Running ''manage.joined''), ManageJoined]\<rparr>))"
| "resume env self (Querying check_ports name rest) w =
     (case e_manage_joined env (clock w) of
        Inl e \<Rightarrow> (Raise e, w)
      | Inr (code, out, err) \<Rightarrow>
          (case process_output (e_json_loads env) out err of
             ((out', err', json_out), effs) \<Rightarrow>
               (let minions_joined =
                      \<lparr>exitcode = code, stdout = out', stderr = err', json = json_out\<rparr>;
                    w1 = w\<lparr>trace := trace w @ effs\<rparr>
                in if exitcode minions_joined = 0 then
                     (if truthy (json minions_joined) then
                        (case py_in name (json minions_joined) of
                           Inl e \<Rightarrow> (Raise e, w1)
                         | Inr True \<Rightarrow> for_next (remove1 (PeerName name) check_ports) rest w1
                         | Inr False \<Rightarrow> for_next check_ports rest w1)
                      else for_next check_ports rest (w1\<lparr>trace := trace w1 @ [Log NoValidJSON]\<rparr>))
                   else for_next check_ports rest w1)))"
| "resume env self (Sleeping check_ports) w = (while_test (handles w self) check_ports, w)"
| "resume env self Final w =
     (Return (connectable (handles w self)), w\<lparr>trace := trace w @ [Log AllPortsChecked]\<rparr>)"

text \<open>
  The prober of the handle \<open>self\<close> resumed \<open>n\<close> times in a row, each resumption one
  tick of the clock, nothing else running in between; it stops where the prober
  returns or raises.
\<close>

fun advance :: "env \<Rightarrow> nat \<Rightarrow> nat \<Rightarrow> step \<times> world \<Rightarrow> step \<times> world" where
  "advance env 0 self sw = sw"
| "advance env (Suc n) self (Suspend pos, w) =
     advance env n self (resume env self pos (w\<lparr>clock := Suc (clock w)\<rparr>))"
| "advance env (Suc n) self (Return b, w) = (Return b, w)"
| "advance env (Suc n) self (Raise e, w) = (Raise e, w)"

text \<open>
  \<open>io_loop.run_sync(self._wait_until_running, timeout=...)\<close> starts the IOLoop, which
  resumes coroutines until the one it was called with returns or raises, or until the
  timeout fires. The first argument after the surroundings is the number of resumptions
  that fit before the timeout. At each tick the IOLoop resumes one coroutine: one of
  those an earlier \<open>run_sync\<close> left suspended, or the one this \<open>run_sync\<close> waits for.
  A suspended coroutine of an earlier call that returns or raises is done, and its
  result goes nowhere. When the timeout fires, \<open>run_sync\<close> stops the IOLoop and raises
  \<open>TimeoutError\<close>; the coroutine is not cancelled, it stays suspended on the IOLoop
  and goes on when the IOLoop is started again.
\<close>

datatype outcome = Returned bool | Raised exn | TimedOut

fun run_sync :: "env \<Rightarrow> nat \<Rightarrow> nat \<Rightarrow> coro \<Rightarrow> world \<Rightarrow> outcome \<times> world" where
  "run_sync env 0 self pos w = (TimedOut, w\<lparr>parked := parked w @ [(self, pos)]\<rparr>)"
| "run_sync env (Suc n) self pos w =
     (if e_next env (Suc (clock w)) < length (parked w) then
        (case parked w ! e_next env (Suc (clock w)) of
           (other, pos_other) \<Rightarrow>
             (case resume env other pos_other (w\<lparr>clock := Suc (clock w)\<rparr>) of
                (Suspend pos', w') \<Rightarrow>
                  run_sync env n self pos
                    (w'\<lparr>parked := (parked w')[e_next env (Suc (clock w)) := (other, pos')]\<rparr>)
              | (Return b, w') \<Rightarrow>
                  run_sync env n self pos
                    (w'\<lparr>parked := take (e_next env (Suc (clock w))) (parked w')
                                     @ drop (Suc (e_next env (Suc (clock w)))) (parked w')\<rparr>)
              | (Raise e, w') \<Rightarrow>
                  run_sync env n self pos
                    (w'\<lparr>parked := take (e_next env (Suc (clock w))) (parked w')
                                     @ drop (Suc (e_next env (Suc (clock w)))) (parked w')\<rparr>)))
      else
        (case resume env self pos (w\<lparr>clock := Suc (clock w)\<rparr>) of
           (Suspend pos', w') \<Rightarrow> run_sync env n self pos' w'
         | (Return b, w') \<Rightarrow> (Returned b, w')
         | (Raise e, w') \<Rightarrow> (Raised e, w')))"

text \<open>
  \<open>wait_until_running\<close>; the timeout defaults to \<open>None\<close>, and \<open>None + 1\<close> is a
  \<open>TypeError\<close>.
  \<^verbatim>\<open>
  if self._connectable.is_set():
      return True
  try:
      return self.io_loop.run_sync(self._wait_until_running, timeout=timeout+1)
  except ioloop.TimeoutError:
      return False
  \<close>
\<close>

definition wait_until_running ::
  "env \<Rightarrow> int option \<Rightarrow> nat \<Rightarrow> world \<Rightarrow> (exn + bool) \<times> world" where
  "wait_until_running env timeout self w =
     (if connectable (handles w self) then (Inr True, w)
      else
        (case timeout of
           None \<Rightarrow> (Inl TypeError, w)
         | Some t \<Rightarrow>
             (case run_sync env (e_budget env (clock w) (t + 1)) self AtStart w of
                (TimedOut, w') \<Rightarrow> (Inr False, w')
              | (Returned b, w') \<Rightarrow> (Inr b, w')
              | (Raised e, w') \<Rightarrow> (Inl e, w'))))"

section \<open>The life of a handle\<close>

text \<open>
  What can happen to the handles there are: one of the three operations is called on a
  handle, or the subprocess of a handle exits, which the handle is not told of (the
  only code that runs then is the loop of \<open>_start\<close> in the child process, which
  reads the \<open>_running\<close> event and never writes it).
\<close>

datatype event =
    CallStart nat
  | CallTerminate nat
  | CallWaitUntilRunning nat "int option"
  | SubprocessExit nat

fun handle_step :: "env \<Rightarrow> event \<Rightarrow> world \<Rightarrow> world" where
  "handle_step env (CallStart self) w = start env self w"
| "handle_step env (CallTerminate self) w = snd (terminate env self w)"
| "handle_step env (CallWaitUntilRunning self t) w = snd (wait_until_running env t self w)"
| "handle_step env (SubprocessExit self) w =
     (case process (handles w self) of
        None \<Rightarrow> w
      | Some pid \<Rightarrow> w\<lparr>live := removeAll pid (live w)\<rparr>)"

text \<open>A history, each event with its own answers from the outside.\<close>

fun handle_run :: "(env \<times> event) list \<Rightarrow> world \<Rightarrow> world" where
  "handle_run [] w = w"
| "handle_run ((env, ev) # evs) w = handle_run evs (handle_step env ev w)"

text \<open>The world before anything has happened.\<close>

definition world0 :: world where
  "world0 =
     \<lparr>clock = 0, trace = [], live = [],
      handles = (\<lambda>self. new_daemon SaltDaemonScriptBase [] False),
      next_handle = 0, parked = []\<rparr>"

text \<open>The effects that signal, kill or terminate a process.\<close>

fun is_kill :: "effect \<Rightarrow> bool" where
  "is_kill (ProcessTerminate pid) = True"
| "is_kill (ChildSignal pid) = True"
| "is_kill (ChildKill pid) = True"
| "is_kill _ = False"

section \<open>The daemon fixtures\<close>

text \<open>
  The eight daemon fixtures (\<open>salt_master\<close>, \<open>salt_minion\<close>, \<open>salt_master_of_masters\<close>,
  \<open>sshd_server\<close> and their session variants) are the same loop around a different
  daemon class and different messages.

  Whether \<open>except Exception\<close> catches an exception: \<open>SystemExit\<close> and
  \<open>KeyboardInterrupt\<close> are never caught; the outcome exceptions of pytest (\<open>xfail\<close>,
  \<open>skip\<close>) derive from \<open>Exception\<close> or from \<open>BaseException\<close> depending on the
  version of pytest, which the first argument says.
\<close>

fun caught_by_except_Exception :: "bool \<Rightarrow> exn \<Rightarrow> bool" where
  "caught_by_except_Exception outcome_is_exception SystemExit = False"
| "caught_by_except_Exception outcome_is_exception KeyboardInterrupt = False"
| "caught_by_except_Exception outcome_is_exception (XFailed m) = outcome_is_exception"
| "caught_by_except_Exception outcome_is_exception Skipped = outcome_is_exception"
| "caught_by_except_Exception outcome_is_exception _ = True"

text \<open>
  The two waits:
  \<^verbatim>\<open>
  connectable = master_process.wait_until_running(timeout=10)
  if connectable is False:
      connectable = master_process.wait_until_running(timeout=5)
  \<close>
\<close>

definition confirm_running :: "env \<Rightarrow> nat \<Rightarrow> world \<Rightarrow> (exn + bool) \<times> world" where
  "confirm_running env p w =
     (case wait_until_running env (Some 10) p w of
        (Inr False, w') \<Rightarrow> wait_until_running env (Some 5) p w'
      | r \<Rightarrow> r)"

text \<open>
  The suite of the \<open>try\<close>: it raises (\<open>Inl\<close>), or falls through to the \<open>yield\<close>
  (\<open>Inr True\<close>), or leaves by its \<open>continue\<close> (\<open>Inr False\<close>).
  \<^verbatim>\<open>
  connectable = master_process.wait_until_running(timeout=10)
  if connectable is False:
      connectable = master_process.wait_until_running(timeout=5)
      if connectable is False:
          master_process.terminate()
          if attempts >= 3:
              pytest.xfail(
                  'The pytest salt-master({0}) has failed to confirm running status '
                  'after {1} attempts'.format(master_id, attempts))
          continue
  \<close>
\<close>

definition try_suite :: "env \<Rightarrow> nat \<Rightarrow> nat \<Rightarrow> world \<Rightarrow> (exn + bool) \<times> world" where
  "try_suite env attempts p w =
     (case confirm_running env p w of
        (Inr False, w') \<Rightarrow>
          (case terminate env p w' of
             (Some e, w'') \<Rightarrow> (Inl e, w'')
           | (None, w'') \<Rightarrow>
               (if attempts \<ge> 3 then (Inl (XFailed (FailedToConfirm attempts)), w'')
                else (Inr False, w'')))
      | r \<Rightarrow> r)"

text \<open>
  The handler; it raises (\<open>Some\<close>) or leaves by its \<open>continue\<close> (\<open>None\<close>).
  \<^verbatim>\<open>
  except Exception as exc:
      log.exception('[%s]: %s', master_log_prefix, exc, exc_info=True)
      master_process.terminate()
      if attempts >= 3:
          pytest.xfail(str(exc))
      continue
  \<close>
\<close>

definition except_handler :: "env \<Rightarrow> nat \<Rightarrow> exn \<Rightarrow> nat \<Rightarrow> world \<Rightarrow> exn option \<times> world" where
  "except_handler env attempts exc p w =
     (case terminate env p (w\<lparr>trace := trace w @ [Log (LoggedException exc)]\<rparr>) of
        (Some e, w') \<Rightarrow> (Some e, w')
      | (None, w') \<Rightarrow>
          (if attempts \<ge> 3 then (Some (XFailed (StrOfExc exc)), w') else (None, w')))"

text \<open>
  The loop, up to the \<open>yield\<close> of the handle or the exception that ends the fixture;
  the result comes with the value of \<open>attempts\<close>. Each attempt has its own answers
  from the outside, \<open>envs attempts\<close>.
  \<^verbatim>\<open>
  attempts = 0
  while attempts <= 3:
      attempts += 1
      master_process = SaltMaster(...)
      master_process.start()
      if master_process.is_alive():
          try:
              ...
          except Exception as exc:
              ...
          log.info(...)
          yield master_process
          break
      else:
          master_process.terminate()
          continue
  else:
      pytest.xfail(
          'The pytest salt-master({0}) has failed to start after {1} attempts'.format(
              master_id, attempts-1
          )
      )
  \<close>
\<close>

function daemon_fixture_loop ::
  "bool \<Rightarrow> (nat \<Rightarrow> env) \<Rightarrow> daemon_class \<Rightarrow> (string \<times> cfgval) list \<Rightarrow> bool \<Rightarrow> nat \<Rightarrow> world
     \<Rightarrow> (exn + nat) \<times> nat \<times> world" where
  "daemon_fixture_loop x envs c config salt_run attempts w =
     (if attempts \<le> 3 then
        (case construct c config salt_run w of
           (p, w0) \<Rightarrow>
             (case start (envs (attempts + 1)) p w0 of
                w1 \<Rightarrow>
                  (if is_alive w1 p then
                     (case try_suite (envs (attempts + 1)) (attempts + 1) p w1 of
                        (Inr True, w2) \<Rightarrow> (Inr p, attempts + 1, w2)
                      | (Inr False, w2) \<Rightarrow>
                          daemon_fixture_loop x envs c config salt_run (attempts + 1) w2
                      | (Inl exc, w2) \<Rightarrow>
                          (if caught_by_except_Exception x exc then
                             (case except_handler (envs (attempts + 1)) (attempts + 1) exc p w2 of
                                (Some e, w3) \<Rightarrow> (Inl e, attempts + 1, w3)
                              | (None, w3) \<Rightarrow>
                                  daemon_fixture_loop x envs c config salt_run (attempts + 1) w3)
                           else (Inl exc, attempts + 1, w2)))
                   else
                     (case terminate (envs (attempts + 1)) p w1 of
                        (Some e, w2) \<Rightarrow> (Inl e, attempts + 1, w2)
                      | (None, w2) \<Rightarrow>
                          daemon_fixture_loop x envs c config salt_run (attempts + 1) w2))))
      else (Inl (XFailed (FailedToStart (attempts - 1))), attempts, w))"
  by pat_completeness auto
termination
  by (relation "measure (\<lambda>(x, envs, c, config, salt_run, attempts, w). 4 - attempts)") auto

declare daemon_fixture_loop.simps [simp del]

definition daemon_fixture ::
  "bool \<Rightarrow> (nat \<Rightarrow> env) \<Rightarrow> daemon_class \<Rightarrow> (string \<times> cfgval) list \<Rightarrow> bool \<Rightarrow> world
     \<Rightarrow> (exn + nat) \<times> nat \<times> world" where
  "daemon_fixture x envs c config salt_run w = daemon_fixture_loop x envs c config salt_run 0 w"

section \<open>Example surroundings\<close>

text \<open>
  Surroundings of an sshd daemon on port 2222, used to run the model on concrete
  inputs: one where nothing listens on the port and every \<open>run_sync\<close> is stopped
  after three resumptions, one where the port accepts connections at once, and one
  where it does so but \<open>run_sync\<close> is stopped after four resumptions. In all of them
  the IOLoop resumes the coroutines it has kept before the one it is called with.
\<close>

abbreviation refusing :: env where
  "refusing \<equiv>
     \<lparr>e_pid = 7, e_connect_ex = (\<lambda>t p. Inr 111), e_manage_joined = (\<lambda>t. Inl RuntimeError),
      e_json_loads = (\<lambda>out. None), e_set_order = (\<lambda>xs. xs), e_budget = (\<lambda>t s. 3),
      e_next = (\<lambda>t. 0), e_children = (\<lambda>t pid. Inr [])\<rparr>"

abbreviation listening :: env where
  "listening \<equiv>
     \<lparr>e_pid = 7, e_connect_ex = (\<lambda>t p. Inr 0), e_manage_joined = (\<lambda>t. Inl RuntimeError),
      e_json_loads = (\<lambda>out. None), e_set_order = (\<lambda>xs. xs), e_budget = (\<lambda>t s. 10),
      e_next = (\<lambda>t. 0), e_children = (\<lambda>t pid. Inr [])\<rparr>"

abbreviation listening_late :: env where
  "listening_late \<equiv>
     \<lparr>e_pid = 7, e_connect_ex = (\<lambda>t p. Inr 0), e_manage_joined = (\<lambda>t. Inl RuntimeError),
      e_json_loads = (\<lambda>out. None), e_set_order = (\<lambda>xs. xs), e_budget = (\<lambda>t s. 4),
      e_next = (\<lambda>t. 0), e_children = (\<lambda>t pid. Inr [])\<rparr>"

abbreviation sshd_handle :: "bool \<Rightarrow> bool \<Rightarrow> daemon" where
  "sshd_handle r c \<equiv>
     \<lparr>d_class = SSHD, d_config = [(''port'', CInt 2222)], d_salt_run = False,
      running = r, connectable = c, process = Some 7\<rparr>"

text \<open>
  One attempt of the \<open>sshd_server\<close> fixture in such surroundings: the new handle
  started and waited for, and the world after its teardown, reached by the \<open>continue\<close>
  of the suite or by the handler of an exception.
\<close>

abbreviation sshd_config :: "(string \<times> cfgval) list" where
  "sshd_config \<equiv> [(''port'', CInt 2222)]"

abbreviation probed :: "env \<Rightarrow> (string \<times> cfgval) list \<Rightarrow> world \<Rightarrow> (exn + bool) \<times> world" where
  "probed env config w \<equiv>
     confirm_running env (next_handle w)
       (start env (next_handle w) (snd (construct SSHD config False w)))"

abbreviation torn_down :: "env \<Rightarrow> (string \<times> cfgval) list \<Rightarrow> world \<Rightarrow> world" where
  "torn_down env config w \<equiv> snd (terminate env (next_handle w) (snd (probed env config w)))"

abbreviation logged :: "exn \<Rightarrow> world \<Rightarrow> world" where
  "logged e w \<equiv> w\<lparr>trace := trace w @ [Log (LoggedException e)]\<rparr>"

abbreviation torn_down_logged :: "env \<Rightarrow> (string \<times> cfgval) list \<Rightarrow> exn \<Rightarrow> world \<Rightarrow> world" where
  "torn_down_logged env config e w \<equiv>
     snd (terminate env (next_handle w) (logged e (snd (probed env config w))))"

section \<open>The result envelope compares by truth value\<close>

lemma truthy_cases:
  "truthy j \<longleftrightarrow> j \<notin> {PNone, PBool False, PInt 0, PStr [], PList [], PDict []}"
  by (cases j) auto

text \<open>
  C2, as stated: a payload that is present is the one compared. The code tests the
  payload's truth value instead, so a parsed but empty payload is not compared: the
  output \<open>{}\<close> parses to the empty dictionary, which is present and equal to \<open>{}\<close>,
  and yet the result does not compare equal to \<open>{}\<close>.
\<close>

theorem ShellResult_eq_present_counterexample:
  "json \<lparr>exitcode = 0, stdout = ''{}'', stderr = '''', json = PDict []\<rparr> \<noteq> PNone
   \<and> py_eq (json \<lparr>exitcode = 0, stdout = ''{}'', stderr = '''', json = PDict []\<rparr>) (PDict [])
   \<and> \<not> ShellResult_eq \<lparr>exitcode = 0, stdout = ''{}'', stderr = '''', json = PDict []\<rparr> (PDict [])"
  by (simp add: ShellResult_eq_def)

text \<open>
  C2, amended: comparing a ShellResult with a value compares the value against the
  parsed payload when the payload is truthy, and against the raw standard output
  otherwise, that is when the payload is absent (\<open>None\<close>) or is one of \<open>False\<close>, \<open>0\<close>,
  the empty string, the empty list and the empty dictionary. The three comparisons the
  specification lists come out as it says.
\<close>

theorem ShellResult_eq_truthy:
  "(truthy (json r) \<longrightarrow> ShellResult_eq r v = py_eq (json r) v)
   \<and> (\<not> truthy (json r) \<longrightarrow> ShellResult_eq r v = py_eq (PStr (stdout r)) v)
   \<and> (truthy (json r) \<longleftrightarrow> json r \<notin> {PNone, PBool False, PInt 0, PStr [], PList [], PDict []})
   \<and> ShellResult_eq \<lparr>exitcode = 0, stdout = ''OK'', stderr = '''', json = PNone\<rparr> (PStr ''OK'')
   \<and> ShellResult_eq \<lparr>exitcode = 0, stdout = ''ignored'', stderr = '''', json = PDict [(''a'', PInt 1)]\<rparr>
         (PDict [(''a'', PInt 1)])
   \<and> \<not> ShellResult_eq \<lparr>exitcode = 0, stdout = ''ignored'', stderr = '''', json = PDict [(''a'', PInt 1)]\<rparr>
         (PStr ''ignored'')"
  using truthy_cases [of "json r"] by (simp add: ShellResult_eq_def)

theorem ShellResult_eq_truthy_witness:
  "truthy (json \<lparr>exitcode = 0, stdout = ''x'', stderr = '''', json = PList [PInt 2]\<rparr>)
   \<and> ShellResult_eq \<lparr>exitcode = 0, stdout = ''x'', stderr = '''', json = PList [PInt 2]\<rparr> (PList [PInt 2])
   \<and> \<not> truthy (json \<lparr>exitcode = 0, stdout = ''0'', stderr = '''', json = PInt 0\<rparr>)
   \<and> \<not> ShellResult_eq \<lparr>exitcode = 0, stdout = ''0'', stderr = '''', json = PInt 0\<rparr> (PInt 0)
   \<and> ShellResult_eq \<lparr>exitcode = 0, stdout = ''0'', stderr = '''', json = PInt 0\<rparr> (PStr ''0'')"
  using ShellResult_eq_truthy [of "\<lparr>exitcode = 0, stdout = ''x'', stderr = '''', json = PList [PInt 2]\<rparr>" "PList [PInt 2]"]
    ShellResult_eq_truthy [of "\<lparr>exitcode = 0, stdout = ''0'', stderr = '''', json = PInt 0\<rparr>" "PInt 0"]
    ShellResult_eq_truthy [of "\<lparr>exitcode = 0, stdout = ''0'', stderr = '''', json = PInt 0\<rparr>" "PStr ''0''"]
  by simp

section \<open>Argument vectors\<close>

text \<open>
  C6, as stated: every spawned daemon gets \<open>-c\<close> immediately followed by its
  configuration directory. \<open>SSHD\<close> is a daemon whose \<open>get_base_script_args\<close> passes
  \<open>-D -f <config_dir>/sshd_config\<close> instead, so its argument vector has no \<open>-c\<close>.
\<close>

theorem daemon_proc_args_sshd_counterexample:
  "daemon_proc_args (map_of [(''sshd'', ''/usr/sbin/sshd'')]) SSHD
     \<lparr>config_dir = ''/etc/conf'', bin_dir_path = '''', cli_script_name = ''sshd''\<rparr>
     = Inr [''/usr/sbin/sshd'', ''-D'', ''-f'', ''/etc/conf/sshd_config'']
   \<and> \<not> followed_by ''-c'' ''/etc/conf'' [''/usr/sbin/sshd'', ''-D'', ''-f'', ''/etc/conf/sshd_config'']
   \<and> ''-c'' \<notin> set [''/usr/sbin/sshd'', ''-D'', ''-f'', ''/etc/conf/sshd_config'']"
  by (simp add: daemon_proc_args_def daemon_get_script_path_def daemon_get_base_script_args_def
      daemon_get_script_args_def os_path_join_def)

text \<open>
  C6, amended: for every spawned Salt daemon (the master, the minion and the base
  daemon class) the argument vector contains \<open>-c\<close> immediately followed by the
  daemon's configuration directory; the sshd daemon is spawned as
  \<open>sshd -D -f <config_dir>/sshd_config\<close>; and for every one-shot CLI command the
  argument vector contains \<open>-c\<close> immediately followed by the configuration directory
  and also the machine-readable output flag \<open>--out=json\<close>.
\<close>

theorem proc_args_config_dir:
  "(c \<noteq> SSHD \<longrightarrow>
      (\<exists>argv. daemon_proc_args which c self = Inr argv \<and> followed_by ''-c'' (config_dir self) argv))
   \<and> (\<forall>sshd. which (cli_script_name self) = Some sshd \<and> sshd \<noteq> [] \<longrightarrow>
        daemon_proc_args which SSHD self
          = Inr [sshd, ''-D'', ''-f'', os_path_join (config_dir self) ''sshd_config''])
   \<and> followed_by ''-c'' (config_dir self) (cli_proc_args k self args)
   \<and> ''--out=json'' \<in> set (cli_proc_args k self args)"
proof -
  have daemon: "c \<noteq> SSHD \<Longrightarrow>
      \<exists>argv. daemon_proc_args which c self = Inr argv \<and> followed_by ''-c'' (config_dir self) argv"
    by (cases c)
      (simp_all add: daemon_proc_args_def daemon_get_script_path_def
        daemon_get_base_script_args_def get_base_script_args_def)
  have sshd: "\<And>sshd. which (cli_script_name self) = Some sshd \<Longrightarrow> sshd \<noteq> [] \<Longrightarrow>
      daemon_proc_args which SSHD self
        = Inr [sshd, ''-D'', ''-f'', os_path_join (config_dir self) ''sshd_config'']"
    by (simp add: daemon_proc_args_def daemon_get_script_path_def
        daemon_get_base_script_args_def daemon_get_script_args_def)
  have cli: "followed_by ''-c'' (config_dir self) (cli_proc_args k self args)"
    by (simp add: cli_proc_args_def cli_get_base_script_args_def get_base_script_args_def)
  have out: "''--out=json'' \<in> set (cli_proc_args k self args)"
    by (simp add: cli_proc_args_def cli_get_base_script_args_def get_base_script_args_def)
  from daemon sshd cli out show ?thesis by blast
qed

theorem proc_args_config_dir_witness:
  "SaltMaster \<noteq> SSHD
   \<and> daemon_proc_args (map_of [(''sshd'', ''/usr/sbin/sshd'')]) SaltMaster
        \<lparr>config_dir = ''/etc/conf'', bin_dir_path = ''/bin'', cli_script_name = ''sshd''\<rparr>
      = Inr [''/bin/sshd'', ''-c'', ''/etc/conf'', ''-l'', ''quiet'']
   \<and> map_of [(''sshd'', ''/usr/sbin/sshd'')] ''sshd'' = Some ''/usr/sbin/sshd''
   \<and> daemon_proc_args (map_of [(''sshd'', ''/usr/sbin/sshd'')]) SSHD
        \<lparr>config_dir = ''/etc/conf'', bin_dir_path = ''/bin'', cli_script_name = ''sshd''\<rparr>
      = Inr [''/usr/sbin/sshd'', ''-D'', ''-f'', ''/etc/conf/sshd_config'']
   \<and> followed_by ''-c'' ''/etc/conf''
        (cli_proc_args SaltRun
          \<lparr>config_dir = ''/etc/conf'', bin_dir_path = ''/bin'', cli_script_name = ''sshd''\<rparr>
          [''manage.joined''])
   \<and> ''--out=json'' \<in> set (cli_proc_args SaltRun
          \<lparr>config_dir = ''/etc/conf'', bin_dir_path = ''/bin'', cli_script_name = ''sshd''\<rparr>
          [''manage.joined''])"
  using proc_args_config_dir [of SaltMaster "map_of [(''sshd'', ''/usr/sbin/sshd'')]"
      "\<lparr>config_dir = ''/etc/conf'', bin_dir_path = ''/bin'', cli_script_name = ''sshd''\<rparr>"
      SaltRun "[''manage.joined'']"]
  by (simp add: daemon_proc_args_def daemon_get_script_path_def daemon_get_base_script_args_def
      daemon_get_script_args_def get_base_script_args_def get_script_path_def os_path_join_def)

section \<open>Closing a terminal filters signalling errors by errno\<close>

lemma guarded_swallows:
  "guarded r = None \<longleftrightarrow> r = None \<or> r = Some (OSError ESRCH) \<or> r = Some (OSError EACCES)"
  by (cases r rule: guarded.cases) auto

lemma wait_for_exit_running: "(\<And>m. poll m = None) \<Longrightarrow> wait_for_exit poll k n = n + k"
  by (induction k arbitrary: n) simp_all

lemma close_terminal_cong:
  assumes "t_poll t = t_poll t'"
    and "guarded (t_send_signal t) = guarded (t_send_signal t')"
    and "guarded (t_kill t) = guarded (t_kill t')"
    and "guarded (t_terminate t) = guarded (t_terminate t')"
  shows "close_terminal t = close_terminal t'"
  unfolding close_terminal_def assms by (rule refl)

text \<open>
  C8: at each of the three signalling steps of \<open>close_terminal\<close> (the kill signal, the
  forced kill, the terminate signal) an \<open>OSError\<close> whose errno is \<open>ESRCH\<close> or
  \<open>EACCES\<close> is swallowed, the shutdown going on exactly as if the call had succeeded;
  when all three calls succeed or fail in this way, nothing is raised and the shutdown
  ends with \<open>communicate()\<close>. An \<open>OSError\<close> with any other errno, raised by a step
  that is carried out, is raised to the caller, and that step is the last call made.
\<close>

theorem close_terminal_errno_filter:
  "(e \<in> {ESRCH, EACCES} \<longrightarrow>
      close_terminal (t\<lparr>t_send_signal := Some (OSError e)\<rparr>) = close_terminal (t\<lparr>t_send_signal := None\<rparr>)
      \<and> close_terminal (t\<lparr>t_kill := Some (OSError e)\<rparr>) = close_terminal (t\<lparr>t_kill := None\<rparr>)
      \<and> close_terminal (t\<lparr>t_terminate := Some (OSError e)\<rparr>) = close_terminal (t\<lparr>t_terminate := None\<rparr>))
   \<and> ((\<forall>r \<in> {t_send_signal t, t_kill t, t_terminate t}.
          r = None \<or> r = Some (OSError ESRCH) \<or> r = Some (OSError EACCES)) \<longrightarrow>
        fst (close_terminal t) = None \<and> last (snd (close_terminal t)) = Communicate)
   \<and> (e \<notin> {ESRCH, EACCES} \<and> t_send_signal t = Some (OSError e)
        \<and> SendSignalKILL \<in> set (snd (close_terminal t)) \<longrightarrow>
        close_terminal t = (Some (OSError e), [SendSignalKILL]))
   \<and> (e \<notin> {ESRCH, EACCES} \<and> t_kill t = Some (OSError e) \<and> Kill \<in> set (snd (close_terminal t)) \<longrightarrow>
        fst (close_terminal t) = Some (OSError e) \<and> last (snd (close_terminal t)) = Kill)
   \<and> (e \<notin> {ESRCH, EACCES} \<and> t_terminate t = Some (OSError e)
        \<and> Terminate \<in> set (snd (close_terminal t)) \<longrightarrow>
        fst (close_terminal t) = Some (OSError e) \<and> last (snd (close_terminal t)) = Terminate)"
proof -
  have swallow: "e \<in> {ESRCH, EACCES} \<Longrightarrow>
      close_terminal (t\<lparr>t_send_signal := Some (OSError e)\<rparr>) = close_terminal (t\<lparr>t_send_signal := None\<rparr>)
      \<and> close_terminal (t\<lparr>t_kill := Some (OSError e)\<rparr>) = close_terminal (t\<lparr>t_kill := None\<rparr>)
      \<and> close_terminal (t\<lparr>t_terminate := Some (OSError e)\<rparr>) = close_terminal (t\<lparr>t_terminate := None\<rparr>)"
  proof -
    assume e: "e \<in> {ESRCH, EACCES}"
    have "close_terminal (t\<lparr>t_send_signal := Some (OSError e)\<rparr>) = close_terminal (t\<lparr>t_send_signal := None\<rparr>)"
      by (rule close_terminal_cong) (use e in simp_all)
    moreover have "close_terminal (t\<lparr>t_kill := Some (OSError e)\<rparr>) = close_terminal (t\<lparr>t_kill := None\<rparr>)"
      by (rule close_terminal_cong) (use e in simp_all)
    moreover have "close_terminal (t\<lparr>t_terminate := Some (OSError e)\<rparr>) = close_terminal (t\<lparr>t_terminate := None\<rparr>)"
      by (rule close_terminal_cong) (use e in simp_all)
    ultimately show ?thesis by simp
  qed
  have quiet: "\<forall>r \<in> {t_send_signal t, t_kill t, t_terminate t}.
          r = None \<or> r = Some (OSError ESRCH) \<or> r = Some (OSError EACCES) \<Longrightarrow>
        fst (close_terminal t) = None \<and> last (snd (close_terminal t)) = Communicate"
  proof -
    assume "\<forall>r \<in> {t_send_signal t, t_kill t, t_terminate t}.
          r = None \<or> r = Some (OSError ESRCH) \<or> r = Some (OSError EACCES)"
    then have "guarded (t_send_signal t) = None" "guarded (t_kill t) = None"
      "guarded (t_terminate t) = None"
      by (simp_all add: guarded_swallows)
    then show ?thesis
      by (simp add: close_terminal_def)
  qed
  have first: "e \<notin> {ESRCH, EACCES} \<Longrightarrow> t_send_signal t = Some (OSError e) \<Longrightarrow>
      SendSignalKILL \<in> set (snd (close_terminal t)) \<Longrightarrow>
      close_terminal t = (Some (OSError e), [SendSignalKILL])"
    by (auto simp: close_terminal_def split: if_splits option.splits)
  have second: "e \<notin> {ESRCH, EACCES} \<Longrightarrow> t_kill t = Some (OSError e) \<Longrightarrow>
      Kill \<in> set (snd (close_terminal t)) \<Longrightarrow>
      fst (close_terminal t) = Some (OSError e) \<and> last (snd (close_terminal t)) = Kill"
    by (auto simp: close_terminal_def split: if_splits option.splits)
  have third: "e \<notin> {ESRCH, EACCES} \<Longrightarrow> t_terminate t = Some (OSError e) \<Longrightarrow>
      Terminate \<in> set (snd (close_terminal t)) \<Longrightarrow>
      fst (close_terminal t) = Some (OSError e) \<and> last (snd (close_terminal t)) = Terminate"
    by (auto simp: close_terminal_def split: if_splits option.splits)
  from swallow quiet first second third show ?thesis by blast
qed

theorem close_terminal_errno_filter_witness:
  "EACCES \<in> {ESRCH, EACCES}
   \<and> close_terminal \<lparr>t_poll = (\<lambda>n. None), t_send_signal = Some (OSError EACCES),
         t_kill = None, t_terminate = None\<rparr>
       = (None, [SendSignalKILL, Kill, Terminate, Communicate])
   \<and> fst (close_terminal \<lparr>t_poll = (\<lambda>n. None), t_send_signal = Some (OSError ESRCH),
         t_kill = Some (OSError EACCES), t_terminate = None\<rparr>) = None
   \<and> (1::int) \<notin> {ESRCH, EACCES}
   \<and> Kill \<in> set (snd (close_terminal \<lparr>t_poll = (\<lambda>n. None), t_send_signal = None,
         t_kill = Some (OSError 1), t_terminate = None\<rparr>))
   \<and> close_terminal \<lparr>t_poll = (\<lambda>n. None), t_send_signal = None,
         t_kill = Some (OSError 1), t_terminate = None\<rparr>
       = (Some (OSError 1), [SendSignalKILL, Kill])"
  using close_terminal_errno_filter [of EACCES
      "\<lparr>t_poll = (\<lambda>n. None), t_send_signal = None, t_kill = None, t_terminate = None\<rparr>"]
    close_terminal_errno_filter [of 1
      "\<lparr>t_poll = (\<lambda>n. None), t_send_signal = None, t_kill = Some (OSError 1), t_terminate = None\<rparr>"]
    close_terminal_errno_filter [of 1
      "\<lparr>t_poll = (\<lambda>n. None), t_send_signal = Some (OSError ESRCH),
        t_kill = Some (OSError EACCES), t_terminate = None\<rparr>"]
  by (simp add: close_terminal_def wait_for_exit_running ESRCH_def EACCES_def)

section \<open>Reaping descendants\<close>

lemma remove1_filter_distinct: "distinct cs \<Longrightarrow> remove1 x cs = filter (\<lambda>c. c \<noteq> x) cs"
proof (induction cs)
  case Nil
  then show ?case by simp
next
  case (Cons a cs)
  then have "x = a \<Longrightarrow> filter (\<lambda>c. c \<noteq> x) cs = cs"
    by (intro filter_True) auto
  with Cons show ?case by auto
qed

lemma fold_remove1_distinct:
  "distinct cs \<Longrightarrow> fold remove1 xs cs = filter (\<lambda>c. c \<notin> set xs) cs"
proof (induction xs arbitrary: cs)
  case Nil
  then show ?case by simp
next
  case (Cons x xs)
  have "fold remove1 (x # xs) cs = fold remove1 xs (remove1 x cs)"
    by simp
  also have "\<dots> = filter (\<lambda>c. c \<notin> set xs) (remove1 x cs)"
    using Cons by simp
  also have "remove1 x cs = filter (\<lambda>c. c \<noteq> x) cs"
    using Cons.prems by (rule remove1_filter_distinct)
  finally show ?case
    by (auto intro: filter_cong)
qed

lemma reap_children_benign:
  assumes "\<forall>c \<in> set iter. fst (signal_child c) = None \<or> fst (signal_child c) = Some NoSuchProcess"
  shows "reap_children iter children
     = (None,
        fold remove1 (filter (\<lambda>c. fst (signal_child c) = Some NoSuchProcess) iter) children,
        concat (map (\<lambda>c. snd (signal_child c)) iter))"
  using assms
proof (induction iter arbitrary: children)
  case Nil
  then show ?case by simp
next
  case (Cons c rest)
  obtain r effs where sc: "signal_child c = (r, effs)"
    by (cases "signal_child c")
  with Cons.prems have "r = None \<or> r = Some NoSuchProcess"
    by simp
  then show ?case
    using Cons sc by auto
qed

lemma reap_children_propagates:
  assumes "\<forall>c' \<in> set pre. fst (signal_child c') = None \<or> fst (signal_child c') = Some NoSuchProcess"
    and "fst (signal_child c) = Some e" and "e \<noteq> NoSuchProcess"
  shows "fst (reap_children (pre @ c # post) children) = Some e"
  using assms
proof (induction pre arbitrary: children)
  case Nil
  obtain effs where "signal_child c = (Some e, effs)"
    using Nil.prems(2) by (cases "signal_child c") simp
  with Nil.prems(3) show ?case
    by (cases e) simp_all
next
  case (Cons a pre)
  obtain r effs where sc: "signal_child a = (r, effs)"
    by (cases "signal_child a")
  with Cons.prems have r: "r = None \<or> r = Some NoSuchProcess"
    by simp
  have ih: "\<And>children. fst (reap_children (pre @ c # post) children) = Some e"
    using Cons by simp
  from r show ?case
  proof
    assume "r = None"
    then show ?thesis
      using sc ih [of children] by (cases "reap_children (pre @ c # post) children") simp
  next
    assume "r = Some NoSuchProcess"
    then show ?thesis
      using sc ih [of "remove1 a children"]
      by (cases "reap_children (pre @ c # post) (remove1 a children)") simp
  qed
qed

text \<open>
  C10: when every descendant is either handled or found gone (\<open>NoSuchProcess\<close>),
  \<open>terminate_child_processes\<close> raises nothing, the children found gone are dropped
  from the list of remaining children and all the others are handled, each with its own
  effects; a child is found gone when its command line or the kill signal raises
  \<open>NoSuchProcess\<close>. A permission error (\<open>AccessDenied\<close>) while signalling a
  descendant is raised to the caller.
\<close>

theorem terminate_child_processes_gone_and_denied:
  "(psutil_children pid = Inr children \<and> distinct children
      \<and> (\<forall>c \<in> set children. fst (signal_child c) = None \<or> fst (signal_child c) = Some NoSuchProcess)
     \<longrightarrow> (\<exists>bulk. terminate_child_processes psutil_children pid
            = (None,
               filter (\<lambda>c. fst (signal_child c) \<noteq> Some NoSuchProcess) children,
               concat (map (\<lambda>c. snd (signal_child c)) children) @ bulk)))
   \<and> (c_cmdline c = Inl NoSuchProcess \<or> (\<exists>cmd. c_cmdline c = Inr cmd) \<and> c_send_signal c = Some NoSuchProcess
       \<longrightarrow> fst (signal_child c) = Some NoSuchProcess)
   \<and> (psutil_children pid = Inr (pre @ c # post)
       \<and> (\<forall>c' \<in> set pre. fst (signal_child c') = None \<or> fst (signal_child c') = Some NoSuchProcess)
       \<and> (\<exists>cmd. c_cmdline c = Inr cmd) \<and> c_send_signal c = Some AccessDenied
       \<longrightarrow> fst (terminate_child_processes psutil_children pid) = Some AccessDenied)"
proof -
  have gone: "c_cmdline c = Inl NoSuchProcess \<or> (\<exists>cmd. c_cmdline c = Inr cmd) \<and> c_send_signal c = Some NoSuchProcess
       \<Longrightarrow> fst (signal_child c) = Some NoSuchProcess"
    by (auto simp: signal_child_def)
  have quiet: "\<exists>bulk. terminate_child_processes psutil_children pid
            = (None,
               filter (\<lambda>c. fst (signal_child c) \<noteq> Some NoSuchProcess) children,
               concat (map (\<lambda>c. snd (signal_child c)) children) @ bulk)"
    if listing: "psutil_children pid = Inr children" and d: "distinct children"
      and benign: "\<forall>c \<in> set children. fst (signal_child c) = None \<or> fst (signal_child c) = Some NoSuchProcess"
  proof -
    have "fold remove1 (filter (\<lambda>c. fst (signal_child c) = Some NoSuchProcess) children) children
        = filter (\<lambda>c. fst (signal_child c) \<noteq> Some NoSuchProcess) children"
      using d by (auto simp: fold_remove1_distinct intro: filter_cong)
    then show ?thesis
      using listing reap_children_benign [OF benign, of children]
      by (simp add: terminate_child_processes_def enumerate_children_def reap_and_wait_def)
  qed
  have denied: "fst (terminate_child_processes psutil_children pid) = Some AccessDenied"
    if listing: "psutil_children pid = Inr (pre @ c # post)"
      and benign: "\<forall>c' \<in> set pre. fst (signal_child c') = None \<or> fst (signal_child c') = Some NoSuchProcess"
      and cmd: "\<exists>cmd. c_cmdline c = Inr cmd" and sig: "c_send_signal c = Some AccessDenied"
  proof -
    have "fst (signal_child c) = Some AccessDenied"
      using cmd sig by (auto simp: signal_child_def)
    then have "fst (reap_children (pre @ c # post) (pre @ c # post)) = Some AccessDenied"
      using benign by (intro reap_children_propagates) simp_all
    then show ?thesis
      using listing
      by (auto simp: terminate_child_processes_def enumerate_children_def reap_and_wait_def
          split: prod.splits option.splits)
  qed
  from gone quiet denied show ?thesis by blast
qed

theorem terminate_child_processes_gone_and_denied_witness:
  "terminate_child_processes
     (\<lambda>pid. Inr [\<lparr>c_pid = 11, c_cmdline = Inr [''salt-minion''], c_send_signal = Some NoSuchProcess,
                    c_wait = None, c_kill = None\<rparr>,
                  \<lparr>c_pid = 12, c_cmdline = Inr [''salt-minion''], c_send_signal = None,
                    c_wait = Some TimeoutExpired, c_kill = None\<rparr>]) 10
     = (None,
        [\<lparr>c_pid = 12, c_cmdline = Inr [''salt-minion''], c_send_signal = None,
          c_wait = Some TimeoutExpired, c_kill = None\<rparr>],
        [Log (LeftBehind [''salt-minion'']), ChildSignal 11,
         Log (LeftBehind [''salt-minion'']), ChildSignal 12, ChildWait 12, ChildKill 12,
         Log (ProcessTerminated [''salt-minion'']), WaitProcs [12]])
   \<and> fst (signal_child \<lparr>c_pid = 11, c_cmdline = Inr [''salt-minion''],
         c_send_signal = Some NoSuchProcess, c_wait = None, c_kill = None\<rparr>) = Some NoSuchProcess
   \<and> fst (terminate_child_processes
     (\<lambda>pid. Inr [\<lparr>c_pid = 11, c_cmdline = Inr [''salt-minion''], c_send_signal = Some NoSuchProcess,
                    c_wait = None, c_kill = None\<rparr>,
                  \<lparr>c_pid = 13, c_cmdline = Inr [''salt-master''], c_send_signal = Some AccessDenied,
                    c_wait = None, c_kill = None\<rparr>,
                  \<lparr>c_pid = 12, c_cmdline = Inr [''salt-minion''], c_send_signal = None,
                    c_wait = Some TimeoutExpired, c_kill = None\<rparr>]) 10) = Some AccessDenied"
  using terminate_child_processes_gone_and_denied
    [where psutil_children =
        "\<lambda>pid. Inr [\<lparr>c_pid = 11, c_cmdline = Inr [''salt-minion''], c_send_signal = Some NoSuchProcess,
                    c_wait = None, c_kill = None\<rparr>,
                  \<lparr>c_pid = 12, c_cmdline = Inr [''salt-minion''], c_send_signal = None,
                    c_wait = Some TimeoutExpired, c_kill = None\<rparr>]"
      and pid = 10
      and children =
        "[\<lparr>c_pid = 11, c_cmdline = Inr [''salt-minion''], c_send_signal = Some NoSuchProcess,
                    c_wait = None, c_kill = None\<rparr>,
                  \<lparr>c_pid = 12, c_cmdline = Inr [''salt-minion''], c_send_signal = None,
                    c_wait = Some TimeoutExpired, c_kill = None\<rparr>]"
      and c = "\<lparr>c_pid = 11, c_cmdline = Inr [''salt-minion''], c_send_signal = Some NoSuchProcess,
                    c_wait = None, c_kill = None\<rparr>"
      and pre = "[]" and post = "[]"]
    terminate_child_processes_gone_and_denied
    [where psutil_children =
        "\<lambda>pid. Inr [\<lparr>c_pid = 11, c_cmdline = Inr [''salt-minion''], c_send_signal = Some NoSuchProcess,
                    c_wait = None, c_kill = None\<rparr>,
                  \<lparr>c_pid = 13, c_cmdline = Inr [''salt-master''], c_send_signal = Some AccessDenied,
                    c_wait = None, c_kill = None\<rparr>,
                  \<lparr>c_pid = 12, c_cmdline = Inr [''salt-minion''], c_send_signal = None,
                    c_wait = Some TimeoutExpired, c_kill = None\<rparr>]"
      and pid = 10 and children = "[]"
      and c = "\<lparr>c_pid = 13, c_cmdline = Inr [''salt-master''], c_send_signal = Some AccessDenied,
                    c_wait = None, c_kill = None\<rparr>"
      and pre = "[\<lparr>c_pid = 11, c_cmdline = Inr [''salt-minion''], c_send_signal = Some NoSuchProcess,
                    c_wait = None, c_kill = None\<rparr>]"
      and post = "[\<lparr>c_pid = 12, c_cmdline = Inr [''salt-minion''], c_send_signal = None,
                    c_wait = Some TimeoutExpired, c_kill = None\<rparr>]"]
  by (simp add: terminate_child_processes_def enumerate_children_def reap_and_wait_def
      signal_child_def)

section \<open>What the prober and the IOLoop leave alone\<close>

lemma for_next_suspends:
  "for_next check_ports rest w
     = (Suspend (case rest of [] \<Rightarrow> Sleeping check_ports | p # ps \<Rightarrow> ForTop check_ports p ps),
        w\<lparr>trace := trace w @ (if rest = [] then [SleepHalf] else [])\<rparr>)"
  by (cases rest) (simp_all add: for_next_def)

lemma process_output_effects:
  "process_output json_loads out err = (r, effs) \<Longrightarrow> filter is_kill effs = []"
  by (auto simp: process_output_def split: if_splits option.splits)

lemma resume_frame:
  assumes "resume env self pos w = (s, w')"
  shows "live w' = live w \<and> clock w' = clock w \<and> parked w' = parked w
     \<and> next_handle w' = next_handle w
     \<and> filter is_kill (trace w') = filter is_kill (trace w)
     \<and> (\<forall>h. running (handles w' h) = running (handles w h)
            \<and> process (handles w' h) = process (handles w h)
            \<and> (connectable (handles w h) \<longrightarrow> connectable (handles w' h)))"
proof (cases pos)
  case (ForTop check_ports port rest)
  then show ?thesis
    using assms
    by (cases port) (auto simp: for_next_suspends split: sum.splits if_splits)
next
  case (Querying check_ports name rest)
  then show ?thesis
    using assms
    by (auto simp: for_next_suspends Let_def dest: process_output_effects
        split: sum.splits if_splits bool.splits prod.splits)
qed (use assms in \<open>auto simp: for_next_suspends while_test_def split: sum.splits if_splits\<close>)

lemma run_sync_frame:
  "run_sync env n self pos w = (r, w') \<Longrightarrow>
     live w' = live w \<and> next_handle w' = next_handle w
     \<and> filter is_kill (trace w') = filter is_kill (trace w)
     \<and> (\<forall>h. running (handles w' h) = running (handles w h)
            \<and> process (handles w' h) = process (handles w h)
            \<and> (connectable (handles w h) \<longrightarrow> connectable (handles w' h)))"
proof (induction n arbitrary: pos w)
  case 0
  then show ?case by auto
next
  case (Suc n)
  let ?k = "e_next env (Suc (clock w))"
  let ?w = "w\<lparr>clock := Suc (clock w)\<rparr>"
  show ?case
  proof (cases "?k < length (parked w)")
    case True
    obtain other pos_other where pk: "parked w ! ?k = (other, pos_other)"
      by (cases "parked w ! ?k")
    obtain s w1 where step: "resume env other pos_other ?w = (s, w1)"
      by (cases "resume env other pos_other ?w")
    note keep = resume_frame [OF step]
    obtain ps where next_run: "run_sync env n self pos (w1\<lparr>parked := ps\<rparr>) = (r, w')"
      using Suc.prems True pk step by (cases s) auto
    from Suc.IH [OF next_run] keep show ?thesis
      by simp
  next
    case False
    obtain s w1 where step: "resume env self pos ?w = (s, w1)"
      by (cases "resume env self pos ?w")
    note keep = resume_frame [OF step]
    show ?thesis
    proof (cases s)
      case (Suspend pos')
      with Suc.prems False step have "run_sync env n self pos' w1 = (r, w')"
        by simp
      from Suc.IH [OF this] keep show ?thesis by simp
    next
      case (Return b)
      with Suc.prems False step keep show ?thesis by auto
    next
      case (Raise e)
      with Suc.prems False step keep show ?thesis by auto
    qed
  qed
qed

lemma wait_until_running_frame:
  assumes "wait_until_running env timeout self w = (r, w')"
  shows "live w' = live w \<and> next_handle w' = next_handle w
     \<and> filter is_kill (trace w') = filter is_kill (trace w)
     \<and> (\<forall>h. running (handles w' h) = running (handles w h)
            \<and> process (handles w' h) = process (handles w h)
            \<and> (connectable (handles w h) \<longrightarrow> connectable (handles w' h)))"
proof (cases "connectable (handles w self) \<or> timeout = None")
  case True
  then show ?thesis
    using assms by (auto simp: wait_until_running_def split: if_splits)
next
  case False
  then obtain t where t: "timeout = Some t" and nc: "\<not> connectable (handles w self)"
    by auto
  obtain r1 w1 where run: "run_sync env (e_budget env (clock w) (t + 1)) self AtStart w = (r1, w1)"
    by (cases "run_sync env (e_budget env (clock w) (t + 1)) self AtStart w")
  with assms t nc have "w' = w1"
    by (auto simp: wait_until_running_def split: outcome.splits)
  with run_sync_frame [OF run] show ?thesis by simp
qed

text \<open>
  C4: when the timeout elapses before the prober has returned or raised,
  \<open>wait_until_running\<close> returns \<open>False\<close>; it raises only what the prober itself
  raised before the timeout (or the \<open>TypeError\<close> of a missing timeout). However
  the wait ends, and whatever coroutines the IOLoop resumed meanwhile, it leaves the
  \<open>_running\<close> flag and the process of every handle as they were, the subprocesses
  running if they were, and it has sent no signal and terminated nothing.
\<close>

theorem wait_until_running_timeout:
  "(\<not> connectable (handles w self)
      \<and> fst (run_sync env (e_budget env (clock w) (t + 1)) self AtStart w) = TimedOut
      \<longrightarrow> fst (wait_until_running env (Some t) self w) = Inr False)
   \<and> (fst (wait_until_running env (Some t) self w) = Inl e
      \<longrightarrow> fst (run_sync env (e_budget env (clock w) (t + 1)) self AtStart w) = Raised e)
   \<and> (wait_until_running env timeout self w = (r, w')
      \<longrightarrow> (\<forall>h. running (handles w' h) = running (handles w h)
                \<and> process (handles w' h) = process (handles w h))
          \<and> live w' = live w
          \<and> filter is_kill (trace w') = filter is_kill (trace w))"
proof -
  have timed_out: "fst (wait_until_running env (Some t) self w) = Inr False"
    if "\<not> connectable (handles w self)"
      and "fst (run_sync env (e_budget env (clock w) (t + 1)) self AtStart w) = TimedOut"
    using that by (auto simp: wait_until_running_def split: prod.splits outcome.splits)
  have raised: "fst (run_sync env (e_budget env (clock w) (t + 1)) self AtStart w) = Raised e"
    if "fst (wait_until_running env (Some t) self w) = Inl e"
    using that
    by (auto simp: wait_until_running_def split: prod.splits outcome.splits if_splits)
  have keeps: "(\<forall>h. running (handles w' h) = running (handles w h)
                \<and> process (handles w' h) = process (handles w h))
          \<and> live w' = live w
          \<and> filter is_kill (trace w') = filter is_kill (trace w)"
    if "wait_until_running env timeout self w = (r, w')"
    using wait_until_running_frame [OF that] by simp
  from timed_out raised keeps show ?thesis
    by blast
qed

theorem wait_until_running_timeout_witness:
  "\<not> connectable (handles (start refusing 0 (snd (construct SSHD [(''port'', CInt 2222)] False world0))) 0)
   \<and> fst (run_sync refusing 3 0 AtStart
        (start refusing 0 (snd (construct SSHD [(''port'', CInt 2222)] False world0)))) = TimedOut
   \<and> fst (wait_until_running refusing (Some 10) 0
        (start refusing 0 (snd (construct SSHD [(''port'', CInt 2222)] False world0)))) = Inr False
   \<and> handles (snd (wait_until_running refusing (Some 10) 0
        (start refusing 0 (snd (construct SSHD [(''port'', CInt 2222)] False world0))))) 0
      = sshd_handle True False
   \<and> trace (snd (wait_until_running refusing (Some 10) 0
        (start refusing 0 (snd (construct SSHD [(''port'', CInt 2222)] False world0)))))
      = [ProcessStart 7, Log (CheckingPorts [Port 2222]), Log (CheckingPort 2222), Connect 2222,
         SleepHalf]
   \<and> live (snd (wait_until_running refusing (Some 10) 0
        (start refusing 0 (snd (construct SSHD [(''port'', CInt 2222)] False world0))))) = [7]
   \<and> parked (snd (wait_until_running refusing (Some 10) 0
        (start refusing 0 (snd (construct SSHD [(''port'', CInt 2222)] False world0)))))
      = [(0, Sleeping [Port 2222])]"
  using wait_until_running_timeout
    [where self = 0 and env = refusing and t = 10 and timeout = "Some 10" and e = TypeError
      and w = "start refusing 0 (snd (construct SSHD [(''port'', CInt 2222)] False world0))"
      and r = "Inr False"
      and w' = "snd (wait_until_running refusing (Some 10) 0
        (start refusing 0 (snd (construct SSHD [(''port'', CInt 2222)] False world0))))"]
  by (simp add: wait_until_running_def start_def construct_def world0_def new_daemon_def
      get_check_ports_def config_check_def while_test_def for_next_def set_order_def
      eval_nat_numeral)


section \<open>Readiness with nothing to check\<close>

text \<open>
  C5: for a daemon whose \<open>get_check_ports\<close> is empty and whose \<open>_running\<close> flag is
  set, the prober sets \<open>_connectable\<close> on its first pass over the loop and returns
  \<open>True\<close> at its third resumption; all it does to the world is write its two log
  lines: no port probe, no peers query, no sleep of half a second. So does a
  \<open>run_sync\<close> that has at least three resumptions before its timeout and whose
  IOLoop resumes the prober at the next three ticks (as it does when it keeps no
  other coroutine), and \<open>wait_until_running\<close> then returns \<open>True\<close>.
\<close>

theorem empty_check_set_ready_at_once:
  assumes "get_check_ports env (handles w self) = Inr []" and "running (handles w self)"
  shows "advance env 3 self (Suspend AtStart, w)
           = (Return True,
              w\<lparr>clock := clock w + 3,
                trace := trace w @ [Log (CheckingPorts []), Log AllPortsChecked],
                handles := (handles w)(self := (handles w self)\<lparr>connectable := True\<rparr>)\<rparr>)
         \<and> (3 \<le> n \<and> length (parked w) \<le> e_next env (clock w + 1)
              \<and> length (parked w) \<le> e_next env (clock w + 2)
              \<and> length (parked w) \<le> e_next env (clock w + 3) \<longrightarrow>
              run_sync env n self AtStart w
                = (Returned True,
                   w\<lparr>clock := clock w + 3,
                     trace := trace w @ [Log (CheckingPorts []), Log AllPortsChecked],
                     handles := (handles w)(self := (handles w self)\<lparr>connectable := True\<rparr>)\<rparr>)
              \<and> (\<not> connectable (handles w self) \<and> e_budget env (clock w) (t + 1) = n \<longrightarrow>
                   fst (wait_until_running env (Some t) self w) = Inr True))"
proof -
  have alone: "advance env 3 self (Suspend AtStart, w)
           = (Return True,
              w\<lparr>clock := clock w + 3,
                trace := trace w @ [Log (CheckingPorts []), Log AllPortsChecked],
                handles := (handles w)(self := (handles w self)\<lparr>connectable := True\<rparr>)\<rparr>)"
    using assms by (simp add: eval_nat_numeral while_test_def)
  have loop: "run_sync env n self AtStart w
                = (Returned True,
                   w\<lparr>clock := clock w + 3,
                     trace := trace w @ [Log (CheckingPorts []), Log AllPortsChecked],
                     handles := (handles w)(self := (handles w self)\<lparr>connectable := True\<rparr>)\<rparr>)"
    if n: "3 \<le> n" and a: "length (parked w) \<le> e_next env (clock w + 1)"
      and b: "length (parked w) \<le> e_next env (clock w + 2)"
      and c: "length (parked w) \<le> e_next env (clock w + 3)"
  proof -
    from n have "n = Suc (Suc (Suc (n - 3)))"
      by arith
    then obtain m where m: "n = Suc (Suc (Suc m))" ..
    from a b c have "\<not> e_next env (Suc (clock w)) < length (parked w)"
      "\<not> e_next env (Suc (Suc (clock w))) < length (parked w)"
      "\<not> e_next env (Suc (Suc (Suc (clock w)))) < length (parked w)"
      by (simp_all add: eval_nat_numeral not_less)
    then show ?thesis
      using assms by (simp add: m while_test_def)
  qed
  from alone loop show ?thesis
    by (auto simp: wait_until_running_def)
qed

theorem empty_check_set_ready_at_once_witness:
  "get_check_ports listening
       (handles (start listening 0 (snd (construct SaltDaemonScriptBase [] False world0))) 0) = Inr []
   \<and> running (handles (start listening 0 (snd (construct SaltDaemonScriptBase [] False world0))) 0)
   \<and> fst (advance listening 3 0
        (Suspend AtStart, start listening 0 (snd (construct SaltDaemonScriptBase [] False world0))))
      = Return True
   \<and> fst (run_sync listening 10 0 AtStart
        (start listening 0 (snd (construct SaltDaemonScriptBase [] False world0)))) = Returned True
   \<and> trace (snd (run_sync listening 10 0 AtStart
        (start listening 0 (snd (construct SaltDaemonScriptBase [] False world0)))))
      = [ProcessStart 7, Log (CheckingPorts []), Log AllPortsChecked]
   \<and> connectable (handles (snd (run_sync listening 10 0 AtStart
        (start listening 0 (snd (construct SaltDaemonScriptBase [] False world0))))) 0)
   \<and> fst (wait_until_running listening (Some 5) 0
        (start listening 0 (snd (construct SaltDaemonScriptBase [] False world0)))) = Inr True"
  using empty_check_set_ready_at_once
    [where env = listening and self = 0 and n = 10 and t = 5
      and w = "start listening 0 (snd (construct SaltDaemonScriptBase [] False world0))"]
  by (simp add: wait_until_running_def start_def construct_def world0_def new_daemon_def
      get_check_ports_def while_test_def eval_nat_numeral)

section \<open>Liveness is a flag of the handle\<close>

lemma terminate_flags:
  "terminate env self w = (r, w') \<Longrightarrow>
     (w' = w \<and> r \<noteq> None)
     \<or> (\<not> running (handles w' self) \<and> \<not> connectable (handles w' self)
        \<and> (\<forall>h. h \<noteq> self \<longrightarrow> handles w' h = handles w h)
        \<and> next_handle w' = next_handle w \<and> parked w' = parked w)"
  by (auto simp: terminate_def split: option.splits sum.splits prod.splits)

lemma handle_step_keeps_running:
  assumes "ev \<noteq> CallTerminate self" and "running (handles w self)"
  shows "running (handles (handle_step env ev w) self)"
proof (cases ev)
  case (CallStart other)
  with assms show ?thesis by (simp add: start_def)
next
  case (CallTerminate other)
  with assms have other: "other \<noteq> self" by auto
  obtain r w' where t: "terminate env other w = (r, w')"
    by (cases "terminate env other w")
  from terminate_flags [OF t] other assms CallTerminate t show ?thesis
    by auto
next
  case (CallWaitUntilRunning other t)
  obtain r w' where "wait_until_running env t other w = (r, w')"
    by (cases "wait_until_running env t other w")
  with wait_until_running_frame [OF this] CallWaitUntilRunning assms show ?thesis
    by simp
next
  case (SubprocessExit other)
  with assms show ?thesis by (simp split: option.splits)
qed

lemma handle_run_keeps_running:
  "CallTerminate self \<notin> set (map snd evs) \<Longrightarrow> running (handles w self)
     \<Longrightarrow> running (handles (handle_run evs w) self)"
proof (induction evs arbitrary: w)
  case Nil
  then show ?case by simp
next
  case (Cons a evs)
  obtain env ev where a: "a = (env, ev)" by (cases a)
  from Cons.prems a have "running (handles (handle_step env ev w) self)"
    by (intro handle_step_keeps_running) auto
  with Cons a show ?case by simp
qed

text \<open>
  C7: \<open>start\<close> sets the liveness flag whatever becomes of the subprocess; no operation
  other than the \<open>terminate\<close> of this handle clears it (not an operation on another
  handle, not a coroutine that an earlier wait left on the IOLoop), and neither does
  the exit of the subprocess, so the flag stays set through any history without a
  \<open>terminate\<close> of this handle; a \<open>terminate\<close> that completes clears it. In
  particular, after \<open>start\<close> and the exit of the subprocess, \<open>is_alive()\<close> is true
  while the subprocess is not running.
\<close>

theorem is_alive_cleared_only_by_terminate:
  "is_alive (start env self w) self
   \<and> (CallTerminate self \<notin> set (map snd evs) \<and> is_alive w self \<longrightarrow> is_alive (handle_run evs w) self)
   \<and> is_alive (handle_step env (SubprocessExit self) w) self = is_alive w self
   \<and> (fst (terminate env self w) = None \<longrightarrow> \<not> is_alive (snd (terminate env self w)) self)
   \<and> is_alive (handle_run [(env, CallStart self), (env, SubprocessExit self)] w) self
   \<and> process (handles (handle_run [(env, CallStart self), (env, SubprocessExit self)] w) self)
        = Some (e_pid env)
   \<and> e_pid env \<notin> set (live (handle_run [(env, CallStart self), (env, SubprocessExit self)] w))"
proof -
  have history: "CallTerminate self \<notin> set (map snd evs) \<Longrightarrow> is_alive w self
      \<Longrightarrow> is_alive (handle_run evs w) self"
    unfolding is_alive_def by (rule handle_run_keeps_running)
  have exit: "is_alive (handle_step env (SubprocessExit self) w) self = is_alive w self"
    by (simp add: is_alive_def split: option.splits)
  have cleared: "fst (terminate env self w) = None \<Longrightarrow> \<not> is_alive (snd (terminate env self w)) self"
    using terminate_flags [of env self w]
    by (cases "terminate env self w") (auto simp: is_alive_def)
  have example: "is_alive (handle_run [(env, CallStart self), (env, SubprocessExit self)] w) self
     \<and> process (handles (handle_run [(env, CallStart self), (env, SubprocessExit self)] w) self)
        = Some (e_pid env)
     \<and> e_pid env \<notin> set (live (handle_run [(env, CallStart self), (env, SubprocessExit self)] w))"
    by (simp add: start_def is_alive_def)
  from history exit cleared example show ?thesis
    by (simp add: is_alive_def start_def)
qed

theorem is_alive_cleared_only_by_terminate_witness:
  "CallTerminate 0 \<notin> set (map snd
       [(refusing, CallWaitUntilRunning 0 (Some 10)), (refusing, SubprocessExit 0),
        (refusing, CallStart 1), (refusing, CallTerminate 1),
        (refusing, CallWaitUntilRunning 0 (Some 5))])
   \<and> is_alive (start refusing 0 (snd (construct SSHD [(''port'', CInt 2222)] False world0))) 0
   \<and> is_alive (handle_run
       [(refusing, CallWaitUntilRunning 0 (Some 10)), (refusing, SubprocessExit 0),
        (refusing, CallStart 1), (refusing, CallTerminate 1),
        (refusing, CallWaitUntilRunning 0 (Some 5))]
       (start refusing 0 (snd (construct SSHD [(''port'', CInt 2222)] False world0)))) 0
   \<and> live (handle_run
       [(refusing, CallWaitUntilRunning 0 (Some 10)), (refusing, SubprocessExit 0)]
       (start refusing 0 (snd (construct SSHD [(''port'', CInt 2222)] False world0)))) = []
   \<and> fst (terminate refusing 0
        (start refusing 0 (snd (construct SSHD [(''port'', CInt 2222)] False world0)))) = None
   \<and> \<not> is_alive (snd (terminate refusing 0
        (start refusing 0 (snd (construct SSHD [(''port'', CInt 2222)] False world0))))) 0"
  using is_alive_cleared_only_by_terminate
    [where env = refusing and self = 0
      and w = "start refusing 0 (snd (construct SSHD [(''port'', CInt 2222)] False world0))"
      and evs = "[(refusing, CallWaitUntilRunning 0 (Some 10)), (refusing, SubprocessExit 0),
        (refusing, CallStart 1), (refusing, CallTerminate 1),
        (refusing, CallWaitUntilRunning 0 (Some 5))]"]
  by (simp add: is_alive_def wait_until_running_def start_def construct_def world0_def
      new_daemon_def get_check_ports_def config_check_def while_test_def for_next_def
      set_order_def terminate_def enumerate_children_def reap_and_wait_def eval_nat_numeral)

section \<open>Readiness after liveness is gone\<close>

text \<open>
  C3: an sshd handle on port 2222 is started; a first \<open>wait_until_running(10)\<close> times
  out after four resumptions, when the prober has found the port connectable, has
  passed the test of \<open>while self._running.is_set()\<close>, and waits at the \<open>yield\<close> under
  it; \<open>terminate()\<close> clears both flags; a second \<open>wait_until_running(10)\<close> starts the
  IOLoop again, which resumes the prober of the first wait: it finds \<open>check_ports\<close>
  empty and sets \<open>_connectable\<close>. The second wait returns \<open>True\<close> for a terminated
  daemon, and the handle is left with \<open>_connectable\<close> set and \<open>_running\<close> clear.
\<close>

theorem stale_prober_sets_connectable_after_terminate:
  "parked (handle_run [(listening_late, CallStart 0),
                       (listening_late, CallWaitUntilRunning 0 (Some 10))]
            (snd (construct SSHD [(''port'', CInt 2222)] False world0))) = [(0, LoopTop [])]
   \<and> handles (handle_run [(listening_late, CallStart 0),
                       (listening_late, CallWaitUntilRunning 0 (Some 10)),
                       (listening_late, CallTerminate 0)]
            (snd (construct SSHD [(''port'', CInt 2222)] False world0))) 0 = sshd_handle False False
   \<and> fst (wait_until_running listening_late (Some 10) 0
        (handle_run [(listening_late, CallStart 0),
                     (listening_late, CallWaitUntilRunning 0 (Some 10)),
                     (listening_late, CallTerminate 0)]
          (snd (construct SSHD [(''port'', CInt 2222)] False world0)))) = Inr True
   \<and> handles (handle_run [(listening_late, CallStart 0),
                       (listening_late, CallWaitUntilRunning 0 (Some 10)),
                       (listening_late, CallTerminate 0),
                       (listening_late, CallWaitUntilRunning 0 (Some 10))]
            (snd (construct SSHD [(''port'', CInt 2222)] False world0))) 0 = sshd_handle False True
   \<and> connectable (handles (handle_run [(listening_late, CallStart 0),
                       (listening_late, CallWaitUntilRunning 0 (Some 10)),
                       (listening_late, CallTerminate 0),
                       (listening_late, CallWaitUntilRunning 0 (Some 10))]
            (snd (construct SSHD [(''port'', CInt 2222)] False world0))) 0)
   \<and> \<not> running (handles (handle_run [(listening_late, CallStart 0),
                       (listening_late, CallWaitUntilRunning 0 (Some 10)),
                       (listening_late, CallTerminate 0),
                       (listening_late, CallWaitUntilRunning 0 (Some 10))]
            (snd (construct SSHD [(''port'', CInt 2222)] False world0))) 0)"
  by (simp add: wait_until_running_def start_def construct_def world0_def
      new_daemon_def get_check_ports_def config_check_def while_test_def for_next_def
      set_order_def terminate_def enumerate_children_def reap_and_wait_def eval_nat_numeral)

section \<open>Three attempts\<close>

lemma resume_returns_flag:
  assumes "resume env self pos w = (Return b, w')"
  shows "b = connectable (handles w' self)"
proof (cases pos)
  case (ForTop check_ports port rest)
  then show ?thesis
    using assms
    by (cases port) (auto simp: for_next_suspends split: sum.splits if_splits)
next
  case (Querying check_ports name rest)
  then show ?thesis
    using assms
    by (auto simp: for_next_suspends Let_def split: sum.splits if_splits bool.splits prod.splits)
qed (use assms in \<open>auto simp: for_next_suspends while_test_def split: sum.splits if_splits\<close>)

lemma run_sync_returns_flag:
  "run_sync env n self pos w = (Returned b, w') \<Longrightarrow> b = connectable (handles w' self)"
proof (induction n arbitrary: pos w)
  case 0
  then show ?case by simp
next
  case (Suc n)
  let ?k = "e_next env (Suc (clock w))"
  let ?w = "w\<lparr>clock := Suc (clock w)\<rparr>"
  show ?case
  proof (cases "?k < length (parked w)")
    case True
    obtain other pos_other where pk: "parked w ! ?k = (other, pos_other)"
      by (cases "parked w ! ?k")
    obtain s w1 where step: "resume env other pos_other ?w = (s, w1)"
      by (cases "resume env other pos_other ?w")
    obtain ps where "run_sync env n self pos (w1\<lparr>parked := ps\<rparr>) = (Returned b, w')"
      using Suc.prems True pk step by (cases s) auto
    then show ?thesis by (rule Suc.IH)
  next
    case False
    obtain s w1 where step: "resume env self pos ?w = (s, w1)"
      by (cases "resume env self pos ?w")
    show ?thesis
    proof (cases s)
      case (Suspend pos')
      with Suc.prems False step have "run_sync env n self pos' w1 = (Returned b, w')"
        by simp
      then show ?thesis by (rule Suc.IH)
    next
      case (Return b')
      with Suc.prems False step resume_returns_flag [of env self pos ?w b' w1] show ?thesis
        by auto
    next
      case (Raise e)
      with Suc.prems False step show ?thesis by auto
    qed
  qed
qed

lemma wait_until_running_true:
  assumes "wait_until_running env timeout self w = (Inr True, w')"
  shows "connectable (handles w' self)"
proof (cases "connectable (handles w self) \<or> timeout = None")
  case True
  then show ?thesis
    using assms by (auto simp: wait_until_running_def split: if_splits)
next
  case False
  then obtain t where t: "timeout = Some t" and nc: "\<not> connectable (handles w self)"
    by auto
  obtain r1 w1 where run: "run_sync env (e_budget env (clock w) (t + 1)) self AtStart w = (r1, w1)"
    by (cases "run_sync env (e_budget env (clock w) (t + 1)) self AtStart w")
  with assms t nc have "w' = w1" "r1 = Returned True"
    by (auto simp: wait_until_running_def split: outcome.splits)
  with run_sync_returns_flag [of env _ self AtStart w True w1] run show ?thesis
    by simp
qed

lemma confirm_running_true:
  assumes "confirm_running env p w = (Inr True, w')"
  shows "connectable (handles w' p) \<and> (\<forall>h. running (handles w' h) = running (handles w h))"
proof -
  obtain r1 w1 where w10: "wait_until_running env (Some 10) p w = (r1, w1)"
    by (cases "wait_until_running env (Some 10) p w")
  note a = wait_until_running_frame [OF w10]
  show ?thesis
  proof (cases "r1 = Inr False")
    case True
    with assms w10 have w5: "wait_until_running env (Some 5) p w1 = (Inr True, w')"
      by (simp add: confirm_running_def)
    from wait_until_running_true [OF w5] wait_until_running_frame [OF w5] a
    show ?thesis by simp
  next
    case False
    with assms w10 have "r1 = Inr True" "w' = w1"
      by (auto simp: confirm_running_def split: sum.splits bool.splits)
    with a wait_until_running_true [of env "Some 10" p w w1] w10 show ?thesis by simp
  qed
qed

lemma try_suite_true:
  assumes "try_suite env attempts p w = (Inr True, w')"
  shows "connectable (handles w' p) \<and> (\<forall>h. running (handles w' h) = running (handles w h))"
proof -
  from assms have "confirm_running env p w = (Inr True, w')"
    by (auto simp: try_suite_def split: prod.splits sum.splits bool.splits option.splits if_splits)
  then show ?thesis
    by (rule confirm_running_true)
qed

lemma try_suite_continue: "try_suite env attempts p w = (Inr False, w') \<Longrightarrow> attempts < 3"
proof -
  assume ts: "try_suite env attempts p w = (Inr False, w')"
  obtain r v where cr: "confirm_running env p w = (r, v)"
    by (cases "confirm_running env p w")
  obtain r' v' where tm: "terminate env p v = (r', v')"
    by (cases "terminate env p v")
  from ts cr tm show ?thesis
    by (auto simp: try_suite_def split: sum.splits bool.splits option.splits if_splits)
qed

lemma except_handler_continue:
  "except_handler env attempts exc p w = (None, w') \<Longrightarrow> attempts < 3"
  by (auto simp: except_handler_def split: prod.splits option.splits if_splits)

lemma is_alive_start: "is_alive (start env p w) p"
  by (simp add: is_alive_def start_def)

lemma daemon_fixture_loop_unfold:
  assumes "attempts \<le> 3"
  shows "daemon_fixture_loop x envs c config salt_run attempts w =
     (case try_suite (envs (attempts + 1)) (attempts + 1) (next_handle w)
             (start (envs (attempts + 1)) (next_handle w) (snd (construct c config salt_run w))) of
        (Inr True, w2) \<Rightarrow> (Inr (next_handle w), attempts + 1, w2)
      | (Inr False, w2) \<Rightarrow> daemon_fixture_loop x envs c config salt_run (attempts + 1) w2
      | (Inl exc, w2) \<Rightarrow>
          (if caught_by_except_Exception x exc then
             (case except_handler (envs (attempts + 1)) (attempts + 1) exc (next_handle w) w2 of
                (Some e, w3) \<Rightarrow> (Inl e, attempts + 1, w3)
              | (None, w3) \<Rightarrow> daemon_fixture_loop x envs c config salt_run (attempts + 1) w3)
           else (Inl exc, attempts + 1, w2)))"
  using assms
  by (simp add: daemon_fixture_loop.simps [of x envs c config salt_run attempts w] construct_def
      is_alive_start)

lemma daemon_fixture_loop_attempts:
  "3 - attempts = k \<Longrightarrow> attempts \<le> 2 \<Longrightarrow>
     fst (snd (daemon_fixture_loop x envs c config salt_run attempts w)) \<le> 3
     \<and> attempts < fst (snd (daemon_fixture_loop x envs c config salt_run attempts w))"
proof (induction k arbitrary: attempts w)
  case 0
  then show ?case by simp
next
  case (Suc k)
  then have le: "attempts \<le> 3" by simp
  let ?p = "next_handle w"
  let ?w = "start (envs (attempts + 1)) ?p (snd (construct c config salt_run w))"
  obtain r w2 where ts: "try_suite (envs (attempts + 1)) (attempts + 1) ?p ?w = (r, w2)"
    by (cases "try_suite (envs (attempts + 1)) (attempts + 1) ?p ?w")
  have IH: "fst (snd (daemon_fixture_loop x envs c config salt_run (attempts + 1) w')) \<le> 3
     \<and> attempts + 1 < fst (snd (daemon_fixture_loop x envs c config salt_run (attempts + 1) w'))"
    if "attempts + 1 < 3" for w'
    using that Suc.prems by (intro Suc.IH) simp_all
  note loop = daemon_fixture_loop_unfold [OF le, of x envs c config salt_run w]
  show ?case
  proof (cases r)
    case (Inr b)
    show ?thesis
    proof (cases b)
      case True
      with loop ts Inr Suc.prems(2) show ?thesis
        by simp
    next
      case False
      with ts Inr have "attempts + 1 < 3"
        by (intro try_suite_continue) simp
      from IH [OF this, of w2] loop ts Inr False show ?thesis
        by simp
    qed
  next
    case (Inl exc)
    obtain r3 w3 where eh:
      "except_handler (envs (attempts + 1)) (attempts + 1) exc ?p w2 = (r3, w3)"
      by (cases "except_handler (envs (attempts + 1)) (attempts + 1) exc ?p w2")
    show ?thesis
    proof (cases "caught_by_except_Exception x exc \<and> r3 = None")
      case True
      with eh have "attempts + 1 < 3"
        by (intro except_handler_continue) simp
      from IH [OF this, of w3] loop ts Inl eh True show ?thesis
        by simp
    next
      case False
      with loop ts Inl eh Suc.prems(2) show ?thesis
        by auto
    qed
  qed
qed

lemma daemon_fixture_loop_yields_ready:
  "4 - attempts = k \<Longrightarrow> daemon_fixture_loop x envs c config salt_run attempts w = (Inr p, n, w') \<Longrightarrow>
     running (handles w' p) \<and> connectable (handles w' p)"
proof (induction k arbitrary: attempts w)
  case 0
  then have "\<not> attempts \<le> 3" by simp
  with "0.prems"(2) show ?case
    by (simp add: daemon_fixture_loop.simps [of x envs c config salt_run attempts w])
next
  case (Suc k)
  then have le: "attempts \<le> 3" and k: "4 - (attempts + 1) = k"
    by simp_all
  note IH = Suc.IH [OF k]
  let ?p = "next_handle w"
  let ?w = "start (envs (attempts + 1)) ?p (snd (construct c config salt_run w))"
  obtain r w2 where ts: "try_suite (envs (attempts + 1)) (attempts + 1) ?p ?w = (r, w2)"
    by (cases "try_suite (envs (attempts + 1)) (attempts + 1) ?p ?w")
  note loop = daemon_fixture_loop_unfold [OF le, of x envs c config salt_run w]
  show ?case
  proof (cases r)
    case (Inr b)
    show ?thesis
    proof (cases b)
      case True
      with Inr ts try_suite_true [of "envs (attempts + 1)" "attempts + 1" ?p ?w w2]
      have "running (handles w2 ?p) \<and> connectable (handles w2 ?p)"
        by (simp add: start_def)
      moreover from Suc.prems(2) loop ts Inr True have "p = ?p" "w' = w2"
        by simp_all
      ultimately show ?thesis by simp
    next
      case False
      with Suc.prems(2) loop ts Inr
      have "daemon_fixture_loop x envs c config salt_run (attempts + 1) w2 = (Inr p, n, w')"
        by simp
      then show ?thesis by (rule IH)
    qed
  next
    case (Inl exc)
    obtain r3 w3 where eh:
      "except_handler (envs (attempts + 1)) (attempts + 1) exc ?p w2 = (r3, w3)"
      by (cases "except_handler (envs (attempts + 1)) (attempts + 1) exc ?p w2")
    from Suc.prems(2) loop ts Inl eh
    have "daemon_fixture_loop x envs c config salt_run (attempts + 1) w3 = (Inr p, n, w')"
      by (simp split: if_splits option.splits)
    then show ?thesis by (rule IH)
  qed
qed

lemma daemon_fixture_loop_failed:
  assumes "attempts + 1 < 3"
    and "confirm_running (envs (attempts + 1)) (next_handle w)
           (start (envs (attempts + 1)) (next_handle w) (snd (construct c config salt_run w))) = (f, v)"
    and "f = Inr False \<and> t = v
         \<or> f = Inl e \<and> caught_by_except_Exception x e
             \<and> t = v\<lparr>trace := trace v @ [Log (LoggedException e)]\<rparr>"
    and "terminate (envs (attempts + 1)) (next_handle w) t = (None, u)"
  shows "daemon_fixture_loop x envs c config salt_run attempts w
     = daemon_fixture_loop x envs c config salt_run (attempts + 1) u"
proof -
  from assms(1) have le: "attempts \<le> 3" by simp
  note loop = daemon_fixture_loop_unfold [OF le, of x envs c config salt_run w]
  let ?p = "next_handle w"
  let ?w = "start (envs (attempts + 1)) ?p (snd (construct c config salt_run w))"
  from assms(3) show ?thesis
  proof
    assume "f = Inr False \<and> t = v"
    with assms(1,2,4) have "try_suite (envs (attempts + 1)) (attempts + 1) ?p ?w = (Inr False, u)"
      by (simp add: try_suite_def)
    with loop show ?thesis by simp
  next
    assume a: "f = Inl e \<and> caught_by_except_Exception x e
             \<and> t = v\<lparr>trace := trace v @ [Log (LoggedException e)]\<rparr>"
    with assms(2) have "try_suite (envs (attempts + 1)) (attempts + 1) ?p ?w = (Inl e, v)"
      by (simp add: try_suite_def)
    moreover from a assms(1,4)
    have "except_handler (envs (attempts + 1)) (attempts + 1) e ?p v = (None, u)"
      by (simp add: except_handler_def)
    ultimately show ?thesis
      using loop a by simp
  qed
qed

lemma daemon_fixture_loop_confirmed:
  assumes "attempts \<le> 3"
    and "confirm_running (envs (attempts + 1)) (next_handle w)
           (start (envs (attempts + 1)) (next_handle w) (snd (construct c config salt_run w)))
         = (Inr True, v)"
  shows "daemon_fixture_loop x envs c config salt_run attempts w
     = (Inr (next_handle w), attempts + 1, v)"
proof -
  from assms(2)
  have "try_suite (envs (attempts + 1)) (attempts + 1) (next_handle w)
          (start (envs (attempts + 1)) (next_handle w) (snd (construct c config salt_run w)))
        = (Inr True, v)"
    by (simp add: try_suite_def)
  with daemon_fixture_loop_unfold [OF assms(1), of x envs c config salt_run w] show ?thesis
    by simp
qed

lemma daemon_fixture_loop_uncaught:
  assumes "attempts \<le> 3"
    and "confirm_running (envs (attempts + 1)) (next_handle w)
           (start (envs (attempts + 1)) (next_handle w) (snd (construct c config salt_run w)))
         = (Inl e, v)"
    and "\<not> caught_by_except_Exception x e"
  shows "daemon_fixture_loop x envs c config salt_run attempts w = (Inl e, attempts + 1, v)"
proof -
  from assms(2)
  have "try_suite (envs (attempts + 1)) (attempts + 1) (next_handle w)
          (start (envs (attempts + 1)) (next_handle w) (snd (construct c config salt_run w)))
        = (Inl e, v)"
    by (simp add: try_suite_def)
  with daemon_fixture_loop_unfold [OF assms(1), of x envs c config salt_run w] assms(3)
  show ?thesis
    by simp
qed

lemma daemon_fixture_loop_exhausted:
  assumes "confirm_running (envs 3) (next_handle w)
           (start (envs 3) (next_handle w) (snd (construct c config salt_run w))) = (f, v)"
  shows "(f = Inl e \<and> caught_by_except_Exception x e
           \<and> terminate (envs 3) (next_handle w) (v\<lparr>trace := trace v @ [Log (LoggedException e)]\<rparr>)
               = (None, u)
          \<longrightarrow> daemon_fixture_loop x envs c config salt_run 2 w = (Inl (XFailed (StrOfExc e)), 3, u))
     \<and> (f = Inr False \<and> terminate (envs 3) (next_handle w) v = (None, u)
          \<longrightarrow> (\<not> x \<longrightarrow> daemon_fixture_loop x envs c config salt_run 2 w
                  = (Inl (XFailed (FailedToConfirm 3)), 3, u))
              \<and> (x \<and> terminate (envs 3) (next_handle w)
                        (u\<lparr>trace := trace u @ [Log (LoggedException (XFailed (FailedToConfirm 3)))]\<rparr>)
                      = (None, u')
                  \<longrightarrow> daemon_fixture_loop x envs c config salt_run 2 w
                      = (Inl (XFailed (StrOfExc (XFailed (FailedToConfirm 3)))), 3, u')))"
proof -
  let ?p = "next_handle w"
  let ?w = "start (envs 3) ?p (snd (construct c config salt_run w))"
  have e3: "(2::nat) + 1 = 3" by simp
  have le: "(2::nat) \<le> 3" by simp
  note loop = daemon_fixture_loop_unfold [OF le, of x envs c config salt_run w, unfolded e3]
  have by_exception: "daemon_fixture_loop x envs c config salt_run 2 w
      = (Inl (XFailed (StrOfExc e)), 3, u)"
    if "f = Inl e" and "caught_by_except_Exception x e"
      and "terminate (envs 3) ?p (v\<lparr>trace := trace v @ [Log (LoggedException e)]\<rparr>) = (None, u)"
  proof -
    from assms that have "try_suite (envs 3) 3 ?p ?w = (Inl e, v)"
      by (simp add: try_suite_def)
    moreover from that have "except_handler (envs 3) 3 e ?p v = (Some (XFailed (StrOfExc e)), u)"
      by (simp add: except_handler_def)
    ultimately show ?thesis
      using loop that by simp
  qed
  have by_false: "(\<not> x \<longrightarrow> daemon_fixture_loop x envs c config salt_run 2 w
                  = (Inl (XFailed (FailedToConfirm 3)), 3, u))
              \<and> (x \<and> terminate (envs 3) ?p
                        (u\<lparr>trace := trace u @ [Log (LoggedException (XFailed (FailedToConfirm 3)))]\<rparr>)
                      = (None, u')
                  \<longrightarrow> daemon_fixture_loop x envs c config salt_run 2 w
                      = (Inl (XFailed (StrOfExc (XFailed (FailedToConfirm 3)))), 3, u'))"
    if "f = Inr False" and "terminate (envs 3) ?p v = (None, u)"
  proof -
    from assms that
    have ts: "try_suite (envs 3) 3 ?p ?w = (Inl (XFailed (FailedToConfirm 3)), u)"
      by (simp add: try_suite_def)
    have "except_handler (envs 3) 3 (XFailed (FailedToConfirm 3)) ?p u
        = (Some (XFailed (StrOfExc (XFailed (FailedToConfirm 3)))), u')"
      if "terminate (envs 3) ?p
            (u\<lparr>trace := trace u @ [Log (LoggedException (XFailed (FailedToConfirm 3)))]\<rparr>)
          = (None, u')"
      using that by (simp add: except_handler_def)
    with loop ts show ?thesis
      by (cases x) simp_all
  qed
  from by_exception by_false show ?thesis
    by blast
qed

text \<open>
  C1: every daemon fixture makes at most three attempts, each on a new handle that it
  starts, and a handle that it yields has its \<open>_running\<close> and \<open>_connectable\<close> flags
  set. An attempt that confirms the running status yields its handle at once. An
  attempt fails when both waits return \<open>False\<close>, or when a wait raises an exception
  that \<open>except Exception\<close> catches, which is logged; either way the daemon is torn
  down. After two failed attempts, a third that confirms the running status yields the
  third handle, and a third that fails raises what \<open>pytest.xfail\<close> raises and yields
  no handle: with the message of the fixture when the waits returned \<open>False\<close>, with
  \<open>str(exc)\<close> when a wait raised \<open>exc\<close> (and, where \<open>pytest.xfail\<close>'s exception is
  itself an \<open>Exception\<close>, the handler catches the first \<open>xfail\<close>, tears down once more
  and raises \<open>xfail\<close> of its text). An exception that \<open>except Exception\<close> does not
  catch ends the fixture at once. The loop is the same for all daemon classes.
\<close>

theorem daemon_fixture_three_attempts:
  "1 \<le> fst (snd (daemon_fixture x envs c config salt_run w))
   \<and> fst (snd (daemon_fixture x envs c config salt_run w)) \<le> 3
   \<and> (daemon_fixture x envs c config salt_run w = (Inr p, n, w')
        \<longrightarrow> running (handles w' p) \<and> connectable (handles w' p))
   \<and> (confirm_running (envs 1) (next_handle w)
          (start (envs 1) (next_handle w) (snd (construct c config salt_run w))) = (fa, va)
        \<longrightarrow> (fa = Inr True \<longrightarrow> daemon_fixture x envs c config salt_run w = (Inr (next_handle w), 1, va))
            \<and> (fa = Inl ea \<and> \<not> caught_by_except_Exception x ea
                \<longrightarrow> daemon_fixture x envs c config salt_run w = (Inl ea, 1, va)))
   \<and> (confirm_running (envs 1) (next_handle w)
          (start (envs 1) (next_handle w) (snd (construct c config salt_run w))) = (fa, va)
       \<and> (fa = Inr False \<and> ta = va
          \<or> fa = Inl ea \<and> caught_by_except_Exception x ea
              \<and> ta = va\<lparr>trace := trace va @ [Log (LoggedException ea)]\<rparr>)
       \<and> terminate (envs 1) (next_handle w) ta = (None, ua)
       \<and> confirm_running (envs 2) (next_handle ua)
          (start (envs 2) (next_handle ua) (snd (construct c config salt_run ua))) = (fb, vb)
       \<and> (fb = Inr False \<and> tb = vb
          \<or> fb = Inl eb \<and> caught_by_except_Exception x eb
              \<and> tb = vb\<lparr>trace := trace vb @ [Log (LoggedException eb)]\<rparr>)
       \<and> terminate (envs 2) (next_handle ua) tb = (None, ub)
       \<and> confirm_running (envs 3) (next_handle ub)
          (start (envs 3) (next_handle ub) (snd (construct c config salt_run ub))) = (fc, vc)
      \<longrightarrow> (fc = Inr True
            \<longrightarrow> daemon_fixture x envs c config salt_run w = (Inr (next_handle ub), 3, vc)
                \<and> running (handles vc (next_handle ub)) \<and> connectable (handles vc (next_handle ub)))
          \<and> (fc = Inl ec \<and> caught_by_except_Exception x ec
              \<and> terminate (envs 3) (next_handle ub)
                    (vc\<lparr>trace := trace vc @ [Log (LoggedException ec)]\<rparr>) = (None, uc)
            \<longrightarrow> daemon_fixture x envs c config salt_run w = (Inl (XFailed (StrOfExc ec)), 3, uc))
          \<and> (fc = Inr False \<and> terminate (envs 3) (next_handle ub) vc = (None, uc)
            \<longrightarrow> (\<not> x \<longrightarrow> daemon_fixture x envs c config salt_run w
                      = (Inl (XFailed (FailedToConfirm 3)), 3, uc))
                \<and> (x \<and> terminate (envs 3) (next_handle ub)
                          (uc\<lparr>trace := trace uc @ [Log (LoggedException (XFailed (FailedToConfirm 3)))]\<rparr>)
                        = (None, ud)
                    \<longrightarrow> daemon_fixture x envs c config salt_run w
                        = (Inl (XFailed (StrOfExc (XFailed (FailedToConfirm 3)))), 3, ud))))"
proof -
  have e1: "(0::nat) + 1 = 1" and e2: "(1::nat) + 1 = 2" and e3: "(2::nat) + 1 = 3"
    by simp_all
  have bound: "1 \<le> fst (snd (daemon_fixture x envs c config salt_run w))
      \<and> fst (snd (daemon_fixture x envs c config salt_run w)) \<le> 3"
    using daemon_fixture_loop_attempts
      [where attempts = 0 and k = 3 and x = x and envs = envs and c = c and config = config
        and salt_run = salt_run and w = w]
    by (simp add: daemon_fixture_def)
  have ready: "running (handles w' p) \<and> connectable (handles w' p)"
    if "daemon_fixture x envs c config salt_run w = (Inr p, n, w')"
    using that daemon_fixture_loop_yields_ready
      [where attempts = 0 and k = 4 and x = x and envs = envs and c = c and config = config
        and salt_run = salt_run and w = w and p = p and n = n and w' = w']
    by (simp add: daemon_fixture_def)
  have first: "(fa = Inr True \<longrightarrow> daemon_fixture x envs c config salt_run w = (Inr (next_handle w), 1, va))
            \<and> (fa = Inl ea \<and> \<not> caught_by_except_Exception x ea
                \<longrightarrow> daemon_fixture x envs c config salt_run w = (Inl ea, 1, va))"
    if "confirm_running (envs 1) (next_handle w)
          (start (envs 1) (next_handle w) (snd (construct c config salt_run w))) = (fa, va)"
    using that
      daemon_fixture_loop_confirmed
        [where attempts = 0 and envs = envs and c = c and config = config and salt_run = salt_run
          and w = w and v = va and x = x, unfolded e1]
      daemon_fixture_loop_uncaught
        [where attempts = 0 and envs = envs and c = c and config = config and salt_run = salt_run
          and w = w and e = ea and v = va and x = x, unfolded e1]
    by (simp add: daemon_fixture_def)
  have third: "(fc = Inr True
            \<longrightarrow> daemon_fixture x envs c config salt_run w = (Inr (next_handle ub), 3, vc)
                \<and> running (handles vc (next_handle ub)) \<and> connectable (handles vc (next_handle ub)))
          \<and> (fc = Inl ec \<and> caught_by_except_Exception x ec
              \<and> terminate (envs 3) (next_handle ub)
                    (vc\<lparr>trace := trace vc @ [Log (LoggedException ec)]\<rparr>) = (None, uc)
            \<longrightarrow> daemon_fixture x envs c config salt_run w = (Inl (XFailed (StrOfExc ec)), 3, uc))
          \<and> (fc = Inr False \<and> terminate (envs 3) (next_handle ub) vc = (None, uc)
            \<longrightarrow> (\<not> x \<longrightarrow> daemon_fixture x envs c config salt_run w
                      = (Inl (XFailed (FailedToConfirm 3)), 3, uc))
                \<and> (x \<and> terminate (envs 3) (next_handle ub)
                          (uc\<lparr>trace := trace uc @ [Log (LoggedException (XFailed (FailedToConfirm 3)))]\<rparr>)
                        = (None, ud)
                    \<longrightarrow> daemon_fixture x envs c config salt_run w
                        = (Inl (XFailed (StrOfExc (XFailed (FailedToConfirm 3)))), 3, ud)))"
    if ca: "confirm_running (envs 1) (next_handle w)
          (start (envs 1) (next_handle w) (snd (construct c config salt_run w))) = (fa, va)"
      and fla: "fa = Inr False \<and> ta = va
          \<or> fa = Inl ea \<and> caught_by_except_Exception x ea
              \<and> ta = va\<lparr>trace := trace va @ [Log (LoggedException ea)]\<rparr>"
      and tma: "terminate (envs 1) (next_handle w) ta = (None, ua)"
      and cb: "confirm_running (envs 2) (next_handle ua)
          (start (envs 2) (next_handle ua) (snd (construct c config salt_run ua))) = (fb, vb)"
      and flb: "fb = Inr False \<and> tb = vb
          \<or> fb = Inl eb \<and> caught_by_except_Exception x eb
              \<and> tb = vb\<lparr>trace := trace vb @ [Log (LoggedException eb)]\<rparr>"
      and tmb: "terminate (envs 2) (next_handle ua) tb = (None, ub)"
      and cc: "confirm_running (envs 3) (next_handle ub)
          (start (envs 3) (next_handle ub) (snd (construct c config salt_run ub))) = (fc, vc)"
  proof -
    have "daemon_fixture_loop x envs c config salt_run 0 w
        = daemon_fixture_loop x envs c config salt_run 1 ua"
      using daemon_fixture_loop_failed
        [where attempts = 0 and envs = envs and c = c and config = config and salt_run = salt_run
          and w = w and f = fa and v = va and t = ta and e = ea and x = x and u = ua, unfolded e1]
        ca fla tma by simp
    also have "\<dots> = daemon_fixture_loop x envs c config salt_run 2 ub"
      using daemon_fixture_loop_failed
        [where attempts = 1 and envs = envs and c = c and config = config and salt_run = salt_run
          and w = ua and f = fb and v = vb and t = tb and e = eb and x = x and u = ub, unfolded e2]
        cb flb tmb by simp
    finally have two: "daemon_fixture x envs c config salt_run w
        = daemon_fixture_loop x envs c config salt_run 2 ub"
      by (simp add: daemon_fixture_def)
    have yes: "daemon_fixture x envs c config salt_run w = (Inr (next_handle ub), 3, vc)
        \<and> running (handles vc (next_handle ub)) \<and> connectable (handles vc (next_handle ub))"
      if "fc = Inr True"
    proof -
      from cc that
        daemon_fixture_loop_confirmed
          [where attempts = 2 and envs = envs and c = c and config = config and salt_run = salt_run
            and w = ub and v = vc and x = x, unfolded e3]
      have "daemon_fixture_loop x envs c config salt_run 2 ub = (Inr (next_handle ub), 3, vc)"
        by simp
      with two have res: "daemon_fixture x envs c config salt_run w = (Inr (next_handle ub), 3, vc)"
        by simp
      from daemon_fixture_loop_yields_ready
        [where attempts = 0 and k = 4 and x = x and envs = envs and c = c and config = config
          and salt_run = salt_run and w = w and p = "next_handle ub" and n = 3 and w' = vc] res
      show ?thesis by (simp add: daemon_fixture_def)
    qed
    note no = daemon_fixture_loop_exhausted
      [where envs = envs and w = ub and c = c and config = config and salt_run = salt_run
        and f = fc and v = vc and e = ec and x = x and u = uc and u' = ud, OF cc, folded two]
    from yes no show ?thesis by blast
  qed
  from bound ready first third show ?thesis by blast
qed

end
